theory Spec2Isabelle
  imports Complex_Main
begin

section \<open>Python values and exceptions\<close>

text \<open>
  The package \<^verbatim>\<open>log_psplines\<close> is Python on top of NumPy, JAX, optax and scikit-fda.
  Floating-point numbers are modelled as real numbers: rounding, overflow and the
  sign of zero are not represented. The basis matrix and the penalty matrix of
  \<^verbatim>\<open>init_basis_and_penalty\<close>, where the source writes \<^verbatim>\<open>np.inf\<close> itself and divides
  by values that can be zero, have entries of the type \<open>npfloat\<close> below, which has the
  IEEE special values. A raised exception is the \<open>Inl\<close> branch of a sum.

  \<open>Unmodelled\<close> is not a Python exception class: it marks an outcome that the model
  does not determine (an exception whose class is fixed inside NumPy or JAX, an
  ill-typed call that those libraries may or may not coerce, or an array with
  \<^verbatim>\<open>nan\<close> or infinite entries where the model holds real numbers).
\<close>

datatype py_error =
    TypeError
  | ValueError string
  | IndexError
  | AttributeError
  | Unmodelled

text \<open>Python's \<^verbatim>\<open>int(x)\<close> on a float truncates towards zero.\<close>

definition py_int :: "real \<Rightarrow> int" where
  "py_int x = (if 0 \<le> x then \<lfloor>x\<rfloor> else \<lceil>x\<rceil>)"

text \<open>The slice \<^verbatim>\<open>xs[1:-1]\<close>: everything but the first and the last element.\<close>

definition inner_slice :: "'a list \<Rightarrow> 'a list" where
  "inner_slice xs = butlast (tl xs)"

section \<open>NumPy functions on one-dimensional arrays\<close>

text \<open>
  \<^verbatim>\<open>np.linspace(start, stop, num)\<close>: \<open>num\<close> evenly spaced samples, the last one set to
  \<open>stop\<close> itself (NumPy assigns \<^verbatim>\<open>y[-1] = stop\<close> when \<open>num > 1\<close>).
\<close>

definition linspace :: "real \<Rightarrow> real \<Rightarrow> nat \<Rightarrow> real list" where
  "linspace start stop num =
     (if num = 0 then []
      else if num = 1 then [start]
      else map (\<lambda>i. start + real i * ((stop - start) / real (num - 1))) [0..<num - 1] @ [stop])"

text \<open>\<^verbatim>\<open>np.log10\<close> and \<^verbatim>\<open>np.logspace(start, stop, num) = 10 ** linspace(start, stop, num)\<close>.
  For a non-positive argument NumPy's \<^verbatim>\<open>log10\<close> gives \<^verbatim>\<open>nan\<close> or \<^verbatim>\<open>-inf\<close>; the value
  of \<open>log 10 x\<close> there carries no meaning.\<close>

definition log10 :: "real \<Rightarrow> real" where
  "log10 x = log 10 x"

definition logspace :: "real \<Rightarrow> real \<Rightarrow> nat \<Rightarrow> real list" where
  "logspace start stop num = map (\<lambda>y. 10 powr y) (linspace start stop num)"

fun cumsum_from :: "real \<Rightarrow> real list \<Rightarrow> real list" where
  "cumsum_from acc [] = []"
| "cumsum_from acc (x # xs) = (acc + x) # cumsum_from (acc + x) xs"

definition cumsum :: "real list \<Rightarrow> real list" where
  "cumsum xs = cumsum_from 0 xs"

text \<open>
  \<^verbatim>\<open>np.interp(x, xp, fp)\<close> for one sample \<open>x\<close> and non-decreasing \<open>xp\<close>: the value
  \<open>fp[0]\<close> left of \<open>xp[0]\<close>, \<open>fp[-1]\<close> from \<open>xp[-1]\<close> on, \<open>fp[j]\<close> where \<open>x = xp[j]\<close>,
  and otherwise \<^verbatim>\<open>slope*(x - xp[j]) + fp[j]\<close> on the segment with
  \<open>xp[j] \<le> x < xp[j+1]\<close>. (For an \<open>xp\<close> that is not non-decreasing NumPy documents
  its result as meaningless.)
\<close>

fun interp_walk :: "real \<Rightarrow> real list \<Rightarrow> real list \<Rightarrow> real" where
  "interp_walk x (x0 # x1 # xp) (y0 # y1 # fp) =
     (if x < x1
      then (if x0 = x then y0 else (y1 - y0) / (x1 - x0) * (x - x0) + y0)
      else interp_walk x (x1 # xp) (y1 # fp))"
| "interp_walk x xp (y0 # fp) = y0"
| "interp_walk x xp [] = 0"

definition interp1 :: "real \<Rightarrow> real list \<Rightarrow> real list \<Rightarrow> real" where
  "interp1 x xp fp = (if x < hd xp then hd fp else interp_walk x xp fp)"

definition interp :: "real list \<Rightarrow> real list \<Rightarrow> real list \<Rightarrow> py_error + real list" where
  "interp xs xp fp =
     (if xp = [] then Inl (ValueError ''array of sample points is empty'')
      else if length fp \<noteq> length xp
      then Inl (ValueError ''fp and xp are not of the same length.'')
      else Inr (map (\<lambda>x. interp1 x xp fp) xs))"

section \<open>datasets.py\<close>

text \<open>The dataclass \<^verbatim>\<open>Periodogram\<close>. Its field \<^verbatim>\<open>power\<close> is written \<open>power'\<close>
  (\<open>power\<close> is exponentiation in HOL); its property \<^verbatim>\<open>n\<close> is \<open>periodogram_n\<close>.\<close>

record Periodogram =
  freqs :: "real list"
  power' :: "real list"
  filtered :: bool

definition periodogram_n :: "Periodogram \<Rightarrow> int" where
  "periodogram_n self = int (length (freqs self))"

text \<open>Indexing an array with a boolean mask: the entries where the mask is true;
  an \<^verbatim>\<open>IndexError\<close> when the mask's length is not the array's.\<close>

definition mask_index :: "'a list \<Rightarrow> bool list \<Rightarrow> py_error + 'a list" where
  "mask_index xs keep =
     (if length keep \<noteq> length xs then Inl IndexError
      else Inr (map fst (filter snd (zip xs keep))))"

text \<open>
  \<^verbatim>\<open>Periodogram.highpass(self, min_freq)\<close>. A method can assign to the fields of
  \<open>self\<close>, so the model returns the state of \<open>self\<close> after the call next to the
  returned object.
\<close>

definition highpass :: "Periodogram \<Rightarrow> real \<Rightarrow> py_error + (Periodogram \<times> Periodogram)" where
  "highpass self min_freq =
     (let keep = map (\<lambda>f. f > min_freq) (freqs self) in
      case mask_index (freqs self) keep of
        Inl e \<Rightarrow> Inl e
      | Inr fs \<Rightarrow>
          (case mask_index (power' self) keep of
             Inl e \<Rightarrow> Inl e
           | Inr ps \<Rightarrow> Inr (self, \<lparr>freqs = fs, power' = ps, filtered = True\<rparr>)))"

section \<open>initialisation.py: init_knots\<close>

text \<open>
  The density-based knots (lines 164 to 172 of \<^verbatim>\<open>initialisation.py\<close>). When the
  total power is zero, \<^verbatim>\<open>power / np.sum(power)\<close> has \<^verbatim>\<open>nan\<close> or infinite entries and
  so have the knots that \<^verbatim>\<open>np.interp\<close> returns (it still raises for an empty or
  ill-sized \<open>cdf\<close>): that outcome is \<open>Unmodelled\<close>.
\<close>

definition density_knots :: "Periodogram \<Rightarrow> int \<Rightarrow> py_error + real list" where
  "density_knots periodogram n_density =
     (if n_density > 0 then
        (let pw = power' periodogram;
             density = map (\<lambda>p. p / sum_list pw) pw;
             cdf = cumsum density;
             quantiles = inner_slice (linspace 0 1 (nat (n_density + 2)))
         in case interp quantiles cdf (freqs periodogram) of
              Inl e \<Rightarrow> Inl e
            | Inr dens \<Rightarrow> if sum_list pw = 0 then Inl Unmodelled else Inr dens)
      else Inr [])"

text \<open>
  \<^verbatim>\<open>init_knots(periodogram, n_knots, frac_uniform=0.0, frac_log=0.8)\<close> called with
  arguments of the declared types. The last statement divides by
  \<^verbatim>\<open>max_freq - min_freq\<close>: when the two are equal, every entry of the result is
  \<^verbatim>\<open>nan\<close> or infinite, and the outcome is \<open>Unmodelled\<close>.
\<close>

definition init_knots :: "Periodogram \<Rightarrow> int \<Rightarrow> real \<Rightarrow> real \<Rightarrow> py_error + real list" where
  "init_knots periodogram n_knots frac_uniform0 frac_log0 =
     (if n_knots < 2
      then Inl (ValueError ''At least two knots are required (min and max frequencies).'')
      else if freqs periodogram = [] then Inl IndexError
      else
        (let min_freq = hd (freqs periodogram);
             max_freq = last (freqs periodogram)
         in if n_knots = 2 then Inr [min_freq, max_freq]
            else
              (let frac_uniform = max 0 (min frac_uniform0 1);
                   frac_log = max 0 (min frac_log0 1);
                   n_uniform = (if frac_uniform > 0
                                then py_int (frac_uniform * real_of_int (n_knots - 2)) else 0);
                   n_log = (if frac_log > 0
                            then py_int (frac_log * real_of_int (n_knots - 2)) else 0);
                   n_density = max 0 ((n_knots - 2) - (n_uniform + n_log));
                   uniform_knots = (if n_uniform > 0
                                    then inner_slice (linspace min_freq max_freq (nat (n_uniform + 2)))
                                    else []);
                   log_knots = (if n_log > 0
                                then inner_slice (logspace (log10 min_freq) (log10 max_freq)
                                                    (nat (n_log + 2)))
                                else [])
               in case density_knots periodogram n_density of
                    Inl e \<Rightarrow> Inl e
                  | Inr dens \<Rightarrow>
                      if max_freq = min_freq then Inl Unmodelled
                      else Inr (map (\<lambda>k. (k - min_freq) / (max_freq - min_freq))
                                  (sort ([min_freq] @ uniform_knots @ log_knots @ dens
                                         @ [max_freq]))))))"

section \<open>NumPy arrays with a shape\<close>

text \<open>
  An array is its shape and its entries in C (row-major) order, as NumPy stores it:
  entry \<open>(i, j)\<close> of an array of shape \<open>[n, m]\<close> is \<open>data ! (i * m + j)\<close>.
\<close>

record 'a ndarray =
  shape :: "nat list"
  data :: "'a list"

text \<open>A float that may be one of the IEEE special values. Finite values are exact
  reals; division and addition follow IEEE 754 (\<open>x / inf = 0\<close>, \<open>x / 0 = \<plusminus>inf\<close>,
  \<open>0 / 0 = nan\<close>, \<open>inf + (-inf) = nan\<close>).\<close>

datatype npfloat = Finite real | PosInf | NegInf | NaN

fun np_div :: "npfloat \<Rightarrow> npfloat \<Rightarrow> npfloat" where
  "np_div (Finite x) (Finite y) =
     (if y \<noteq> 0 then Finite (x / y)
      else if x = 0 then NaN else if 0 < x then PosInf else NegInf)"
| "np_div (Finite x) PosInf = Finite 0"
| "np_div (Finite x) NegInf = Finite 0"
| "np_div PosInf (Finite y) = (if 0 \<le> y then PosInf else NegInf)"
| "np_div NegInf (Finite y) = (if 0 \<le> y then NegInf else PosInf)"
| "np_div _ _ = NaN"

fun np_plus :: "npfloat \<Rightarrow> npfloat \<Rightarrow> npfloat" where
  "np_plus (Finite x) (Finite y) = Finite (x + y)"
| "np_plus (Finite x) PosInf = PosInf"
| "np_plus (Finite x) NegInf = NegInf"
| "np_plus PosInf (Finite y) = PosInf"
| "np_plus PosInf PosInf = PosInf"
| "np_plus NegInf (Finite y) = NegInf"
| "np_plus NegInf NegInf = NegInf"
| "np_plus _ _ = NaN"

fun is_finite :: "npfloat \<Rightarrow> bool" where
  "is_finite (Finite x) = True"
| "is_finite _ = False"

text \<open>\<^verbatim>\<open>a.squeeze()\<close> drops every axis of length one; the entries stay as they are.\<close>

definition squeeze :: "'a ndarray \<Rightarrow> 'a ndarray" where
  "squeeze a = \<lparr>shape = filter (\<lambda>d. d \<noteq> 1) (shape a), data = data a\<rparr>"

text \<open>\<^verbatim>\<open>a.T\<close> reverses the axes. \<open>chunks k len xs\<close> cuts \<open>xs\<close> into \<open>k\<close> consecutive
  blocks of \<open>len\<close> entries: the sub-arrays along the first axis.\<close>

fun chunks :: "nat \<Rightarrow> nat \<Rightarrow> 'a list \<Rightarrow> 'a list list" where
  "chunks 0 len xs = []"
| "chunks (Suc k) len xs = take len xs # chunks k len (drop len xs)"

fun transpose_data :: "nat list \<Rightarrow> 'a list \<Rightarrow> 'a list" where
  "transpose_data [] xs = xs"
| "transpose_data (d # ds) xs =
     (let blocks = map (transpose_data ds) (chunks d (prod_list ds) xs)
      in concat (map (\<lambda>p. map (\<lambda>b. b ! p) blocks) [0..<prod_list ds]))"

definition ndarray_T :: "'a ndarray \<Rightarrow> 'a ndarray" where
  "ndarray_T a = \<lparr>shape = rev (shape a), data = transpose_data (shape a) (data a)\<rparr>"

text \<open>
  \<^verbatim>\<open>a / v\<close> for an array \<open>a\<close> and a one-dimensional \<open>v\<close> of length \<open>k\<close>. Broadcasting
  aligns \<open>v\<close> with the last axis of \<open>a\<close> (of length \<open>t\<close>): the shapes agree when
  \<open>t = k\<close>, \<open>v\<close> is stretched when \<open>k = 1\<close>, the last axis of \<open>a\<close> is stretched when
  \<open>t = 1\<close> or \<open>a\<close> has no axis, and anything else is NumPy's \<^verbatim>\<open>ValueError\<close>.
\<close>

definition divide_by_vector :: "npfloat ndarray \<Rightarrow> npfloat list \<Rightarrow> py_error + npfloat ndarray" where
  "divide_by_vector a v =
     (let k = length v in
      case rev (shape a) of
        [] \<Rightarrow> Inr \<lparr>shape = [k], data = concat (map (\<lambda>x. map (np_div x) v) (data a))\<rparr>
      | t # _ \<Rightarrow>
          if t = k
          then Inr \<lparr>shape = shape a,
                    data = map (\<lambda>(i, x). np_div x (v ! (i mod k))) (enumerate 0 (data a))\<rparr>
          else if k = 1
          then Inr \<lparr>shape = shape a, data = map (\<lambda>x. np_div x (v ! 0)) (data a)\<rparr>
          else if t = 1
          then Inr \<lparr>shape = butlast (shape a) @ [k],
                    data = concat (map (\<lambda>x. map (np_div x) v) (data a))\<rparr>
          else Inl (ValueError ''operands could not be broadcast together''))"

text \<open>\<^verbatim>\<open>np.max(p)\<close> over all entries; NumPy raises on an empty array.\<close>

definition np_max :: "real list \<Rightarrow> py_error + real" where
  "np_max xs =
     (case xs of
        [] \<Rightarrow> Inl (ValueError ''zero-size array to reduction operation maximum which has no identity'')
      | x # rest \<Rightarrow> Inr (fold max rest x))"

text \<open>\<^verbatim>\<open>np.eye(k)\<close>: the \<open>k \<times> k\<close> identity matrix.\<close>

definition eye :: "nat \<Rightarrow> real ndarray" where
  "eye k = \<lparr>shape = [k, k], data = map (\<lambda>q. if q div k = q mod k then 1 else 0) [0..<k * k]\<rparr>"

text \<open>\<^verbatim>\<open>a + b\<close> for arrays of one shape. Broadcasting of two different shapes is not
  followed here: the penalty matrix and the identity of its second dimension differ
  in shape only when the penalty matrix is not square.\<close>

definition np_add :: "npfloat ndarray \<Rightarrow> npfloat ndarray \<Rightarrow> py_error + npfloat ndarray" where
  "np_add a b =
     (if shape a = shape b
      then Inr \<lparr>shape = shape a, data = map2 np_plus (data a) (data b)\<rparr>
      else Inl Unmodelled)"

text \<open>Running one fallible step after another: an exception ends the computation.\<close>

fun and_then :: "'e + 'a \<Rightarrow> ('a \<Rightarrow> 'e + 'b) \<Rightarrow> 'e + 'b" where
  "and_then (Inl e) f = Inl e"
| "and_then (Inr x) f = f x"

section \<open>The libraries behind the package\<close>

text \<open>
  The functions of scikit-fda, JAX and optax that the package calls, and the two
  functions it imports from its own module \<^verbatim>\<open>bayesian_model\<close>, whose source is not part
  of the files at hand. They are parameters of the model:
  \<^item> \<open>BSplineBasis order knots\<close> is \<^verbatim>\<open>BSplineBasis(domain_range=[0, 1], order=order, knots=knots)\<close>,
    a basis object of type \<open>'b\<close>;
  \<^item> \<open>to_grid_data_matrix basis grid_points\<close> is
    \<^verbatim>\<open>basis.to_basis().to_grid(grid_points).data_matrix\<close>, of shape
    (number of basis functions, number of grid points, 1);
  \<^item> \<open>penalty_matrix order basis\<close> is
    \<^verbatim>\<open>L2Regularization(LinearDifferentialOperator(order)).penalty_matrix(basis)\<close>;
  \<^item> \<open>build_spline\<close> and \<open>whittle_lnlike\<close> are the functions of \<^verbatim>\<open>bayesian_model\<close>;
  \<^item> \<open>value_and_grad f w\<close> is \<^verbatim>\<open>jax.value_and_grad(f)(w)\<close>;
  \<^item> \<open>adam_init lr\<close> and \<open>adam_update lr\<close> are \<^verbatim>\<open>init\<close> and \<^verbatim>\<open>update\<close> of
    \<^verbatim>\<open>optax.adam(learning_rate=lr)\<close>, with optimiser states of type \<open>'s\<close>.
\<close>

record ('b, 's) libs =
  BSplineBasis :: "int \<Rightarrow> real list \<Rightarrow> py_error + 'b"
  to_grid_data_matrix :: "'b \<Rightarrow> real list \<Rightarrow> py_error + npfloat ndarray"
  penalty_matrix_of :: "int \<Rightarrow> 'b \<Rightarrow> py_error + real ndarray"
  build_spline :: "npfloat ndarray \<Rightarrow> real list \<Rightarrow> py_error + real list"
  whittle_lnlike :: "real list \<Rightarrow> real list \<Rightarrow> py_error + real"
  value_and_grad :: "(real list \<Rightarrow> py_error + real) \<Rightarrow> real list \<Rightarrow> py_error + (real \<times> real list)"
  adam_init :: "real \<Rightarrow> real list \<Rightarrow> 's"
  adam_update :: "real \<Rightarrow> real list \<Rightarrow> 's \<Rightarrow> real list \<times> 's"

section \<open>initialisation.py: init_basis_and_penalty\<close>

text \<open>\<^verbatim>\<open>np.linspace\<close> with an integer count, and the slice \<^verbatim>\<open>xs[:stop]\<close> (a negative
  \<open>stop\<close> counts from the end).\<close>

definition np_linspace :: "real \<Rightarrow> real \<Rightarrow> int \<Rightarrow> py_error + real list" where
  "np_linspace start stop num =
     (if num < 0 then Inl (ValueError ''Number of samples must be non-negative.'')
      else Inr (linspace start stop (nat num)))"

definition slice_to :: "'a list \<Rightarrow> int \<Rightarrow> 'a list" where
  "slice_to xs stop =
     (if stop < 0 then take (nat (int (length xs) + stop)) xs else take (nat stop) xs)"

text \<open>Lines 79 to 86: the normalisation factor of each basis column, with
  \<^verbatim>\<open>norm_factor[norm_factor == 0] = np.inf\<close>.\<close>

definition norm_factor :: "real list \<Rightarrow> int \<Rightarrow> npfloat list" where
  "norm_factor knots degree =
     (let knots_with_boundary = replicate (nat degree) 0 @ knots @ replicate (nat degree) 1;
          n_knots_total = int (length knots_with_boundary);
          mid_to_end = drop (nat (degree + 1)) knots_with_boundary;
          start_to_mid = slice_to knots_with_boundary (n_knots_total - degree - 1)
      in map (\<lambda>x. if x = 0 then PosInf else Finite x)
           (map2 (\<lambda>hi lo. (hi - lo) / real_of_int (degree + 1)) mid_to_end start_to_mid))"

text \<open>Line 94, \<^verbatim>\<open>p = p / np.max(p)\<close>, and line 95,
  \<^verbatim>\<open>p = p + epsilon * np.eye(p.shape[1])\<close>. The division is NumPy's: a matrix whose
  maximum is zero becomes one of \<^verbatim>\<open>nan\<close> and \<^verbatim>\<open>-inf\<close> entries, and stays so under the
  addition.\<close>

definition rescale_by_max :: "real ndarray \<Rightarrow> py_error + npfloat ndarray" where
  "rescale_by_max p =
     and_then (np_max (data p)) (\<lambda>top.
       Inr \<lparr>shape = shape p, data = map (\<lambda>x. np_div (Finite x) (Finite top)) (data p)\<rparr>)"

definition add_ridge :: "npfloat ndarray \<Rightarrow> real \<Rightarrow> py_error + npfloat ndarray" where
  "add_ridge p epsilon =
     (case shape p of
        _ # k # _ \<Rightarrow>
          np_add p \<lparr>shape = shape (eye k), data = map (\<lambda>x. Finite (epsilon * x)) (data (eye k))\<rparr>
      | _ \<Rightarrow> Inl IndexError)"

definition init_basis_and_penalty ::
  "('b, 's) libs \<Rightarrow> real list \<Rightarrow> int \<Rightarrow> int \<Rightarrow> int \<Rightarrow> real \<Rightarrow>
     py_error + (npfloat ndarray \<times> npfloat ndarray)" where
  "init_basis_and_penalty L knots degree n_grid_points diffMatrixOrder epsilon =
     (let order = degree + 1 in
      and_then (BSplineBasis L order knots) (\<lambda>basis.
      and_then (np_linspace 0 1 n_grid_points) (\<lambda>grid_points.
      and_then (to_grid_data_matrix L basis grid_points) (\<lambda>data_matrix.
        let basis_matrix = ndarray_T (squeeze data_matrix) in
        if degree < 0 then Inl (ValueError ''repeats may not contain negative values.'')
        else
          and_then (divide_by_vector basis_matrix (norm_factor knots degree)) (\<lambda>basis_matrix.
          and_then (penalty_matrix_of L diffMatrixOrder basis) (\<lambda>p.
          and_then (rescale_by_max p) (\<lambda>p.
          and_then (add_ridge p epsilon) (\<lambda>p.
            Inr (basis_matrix, p)))))))))"

section \<open>psplines.py: the model class\<close>

text \<open>
  The dataclass \<^verbatim>\<open>LogPSplines\<close>. Its field \<^verbatim>\<open>n\<close> is written \<open>n'\<close>. The attribute
  \<^verbatim>\<open>_log_parametric_model\<close>, which exists only once the property
  \<^verbatim>\<open>log_parametric_model\<close> has been read, is the field \<open>log_parametric_model_cache\<close>:
  \<open>None\<close> while \<^verbatim>\<open>hasattr(self, "_log_parametric_model")\<close> is false.
\<close>

record LogPSplines =
  degree :: int
  diffMatrixOrder :: int
  n' :: int
  basis :: "npfloat ndarray"
  penalty_matrix :: "npfloat ndarray"
  knots :: "real list"
  weights :: "real list"
  parametric_model :: "real list option"
  log_parametric_model_cache :: "real list option"

text \<open>The properties \<^verbatim>\<open>order\<close>, \<^verbatim>\<open>n_knots\<close> and \<^verbatim>\<open>n_basis\<close>, and \<^verbatim>\<open>__call__\<close>.\<close>

definition order_of :: "LogPSplines \<Rightarrow> int" where
  "order_of self = degree self + 1"

definition n_knots_of :: "LogPSplines \<Rightarrow> int" where
  "n_knots_of self = int (length (knots self))"

definition n_basis_of :: "LogPSplines \<Rightarrow> int" where
  "n_basis_of self = n_knots_of self + degree self - 1"

definition call :: "('b, 's) libs \<Rightarrow> LogPSplines \<Rightarrow> real list option \<Rightarrow> py_error + real list" where
  "call L self w =
     build_spline L (basis self) (case w of None \<Rightarrow> weights self | Some v \<Rightarrow> v)"

text \<open>\<^verbatim>\<open>jnp.zeros(k)\<close> and \<^verbatim>\<open>jnp.ones(k)\<close>; a negative length is an exception inside JAX.\<close>

definition jnp_zeros :: "int \<Rightarrow> py_error + real list" where
  "jnp_zeros k = (if k < 0 then Inl Unmodelled else Inr (replicate (nat k) 0))"

definition jnp_ones :: "int \<Rightarrow> py_error + real list" where
  "jnp_ones k = (if k < 0 then Inl Unmodelled else Inr (replicate (nat k) 1))"

text \<open>Python's \<^verbatim>\<open>str\<close> of an integer, for the f-string of \<^verbatim>\<open>__post_init__\<close>.\<close>

function str_nat :: "nat \<Rightarrow> string" where
  "str_nat k = (if k < 10 then [char_of (48 + k)] else str_nat (k div 10) @ [char_of (48 + k mod 10)])"
  by pat_completeness auto
termination
  by (relation "measure (\<lambda>k. k)") auto

definition str_int :: "int \<Rightarrow> string" where
  "str_int i = (if i < 0 then CHR ''-'' # str_nat (nat (- i)) else str_nat (nat i))"

definition post_init :: "LogPSplines \<Rightarrow> py_error + unit" where
  "post_init self =
     (if degree self < diffMatrixOrder self
      then Inl (ValueError ''Degree must be larger than diffMatrixOrder.'')
      else if degree self \<notin> set [0, 1, 2, 3, 4, 5]
      then Inl (ValueError ''Degree must be between 0 and 5.'')
      else if diffMatrixOrder self \<notin> set [0, 1, 2]
      then Inl (ValueError ''diffMatrixOrder must be 0, 1, or 2.'')
      else if n_knots_of self < degree self
      then Inl (ValueError (''#knots: '' @ str_int (n_knots_of self) @ '', degree: ''
                              @ str_int (degree self)))
      else Inr ())"

text \<open>The generated \<^verbatim>\<open>__init__\<close>: it stores the fields and calls \<^verbatim>\<open>__post_init__\<close>.\<close>

definition new_LogPSplines ::
  "int \<Rightarrow> int \<Rightarrow> int \<Rightarrow> npfloat ndarray \<Rightarrow> npfloat ndarray \<Rightarrow> real list \<Rightarrow> real list \<Rightarrow>
     real list option \<Rightarrow> py_error + LogPSplines" where
  "new_LogPSplines deg dmo len b pen ks ws pm =
     (let self = \<lparr>degree = deg, diffMatrixOrder = dmo, n' = len, basis = b,
                   penalty_matrix = pen, knots = ks, weights = ws, parametric_model = pm,
                   log_parametric_model_cache = None\<rparr>
      in and_then (post_init self) (\<lambda>_. Inr self))"

text \<open>
  The property \<^verbatim>\<open>log_parametric_model\<close>. It assigns to \<open>self\<close>, so the model returns
  the state of \<open>self\<close> after the access next to the value read.
\<close>

definition log_parametric_model :: "LogPSplines \<Rightarrow> py_error + (LogPSplines \<times> real list)" where
  "log_parametric_model self =
     (case log_parametric_model_cache self of
        Some v \<Rightarrow> Inr (self, v)
      | None \<Rightarrow>
          (case parametric_model self of
             None \<Rightarrow>
               and_then (jnp_ones (n' self)) (\<lambda>ones.
                 let v = map ln ones
                 in Inr (self\<lparr>parametric_model := Some ones,
                              log_parametric_model_cache := Some v\<rparr>, v))
           | Some pm \<Rightarrow>
               (let v = map ln pm
                in Inr (self\<lparr>log_parametric_model_cache := Some v\<rparr>, v))))"

section \<open>initialisation.py: init_weights\<close>

text \<open>\<^verbatim>\<open>jax.lax.fori_loop(lower, upper, body, init)\<close>: \<open>body\<close> applied to the indices
  \<open>lower, ..., upper - 1\<close> in turn.\<close>

fun fori_steps :: "nat \<Rightarrow> int \<Rightarrow> (int \<Rightarrow> 'a \<Rightarrow> py_error + 'a) \<Rightarrow> 'a \<Rightarrow> py_error + 'a" where
  "fori_steps 0 i body s = Inr s"
| "fori_steps (Suc k) i body s = and_then (body i s) (fori_steps k (i + 1) body)"

definition fori_loop :: "int \<Rightarrow> int \<Rightarrow> (int \<Rightarrow> 'a \<Rightarrow> py_error + 'a) \<Rightarrow> 'a \<Rightarrow> py_error + 'a" where
  "fori_loop lower upper body init = fori_steps (nat (upper - lower)) lower body init"

text \<open>\<^verbatim>\<open>optax.apply_updates(params, updates)\<close> adds the update to each parameter.\<close>

definition apply_updates :: "real list \<Rightarrow> real list \<Rightarrow> real list" where
  "apply_updates params updates = map2 (+) params updates"

text \<open>The loss and the step of \<^verbatim>\<open>init_weights\<close> (lines 35 to 44).\<close>

definition compute_loss ::
  "('b, 's) libs \<Rightarrow> real list \<Rightarrow> LogPSplines \<Rightarrow> real list \<Rightarrow> py_error + real" where
  "compute_loss L log_pdgrm log_psplines w =
     and_then (call L log_psplines (Some w)) (\<lambda>spline.
     and_then (whittle_lnlike L log_pdgrm spline) (\<lambda>lnl. Inr (- lnl)))"

definition step ::
  "('b, 's) libs \<Rightarrow> real list \<Rightarrow> LogPSplines \<Rightarrow> int \<Rightarrow> real list \<times> 's \<Rightarrow>
     py_error + (real list \<times> 's)" where
  "step L log_pdgrm log_psplines i state =
     (case state of (w, opt_state) \<Rightarrow>
        and_then (value_and_grad L (compute_loss L log_pdgrm log_psplines) w) (\<lambda>(loss, grads).
          case adam_update L (1 / 100) grads opt_state of
            (updates, opt_state') \<Rightarrow> Inr (apply_updates w updates, opt_state')))"

definition init_weights ::
  "('b, 's) libs \<Rightarrow> real list \<Rightarrow> LogPSplines \<Rightarrow> real list option \<Rightarrow> int \<Rightarrow>
     py_error + real list" where
  "init_weights L log_pdgrm log_psplines init_weights0 num_steps =
     and_then (case init_weights0 of
                 None \<Rightarrow> jnp_zeros (n_basis_of log_psplines)
               | Some w \<Rightarrow> Inr w) (\<lambda>init_w.
       let opt_state = adam_init L (1 / 100) init_w;
           init_state = (init_w, opt_state)
       in and_then (fori_loop 0 num_steps (step L log_pdgrm log_psplines) init_state)
            (\<lambda>final_state. Inr (fst final_state)))"

section \<open>psplines.py: from_periodogram\<close>

text \<open>
  Python binds the arguments of a call at run time and checks no annotation, so a
  call can hand a function values of other kinds than its parameters declare. The
  values that \<^verbatim>\<open>from_periodogram\<close> can hand to \<^verbatim>\<open>init_knots\<close>:
\<close>

datatype pyval =
    PyNone
  | PyInt int
  | PyFloat real
  | PyArray "real list"
  | PyPeriodogram Periodogram

text \<open>
  Binding: positional arguments fill the parameters from the left, then each keyword
  argument fills the parameter of its name. Too many positional arguments, an unknown
  keyword and a parameter given twice are each a \<^verbatim>\<open>TypeError\<close>.
\<close>

fun bind_keywords ::
  "(string \<times> pyval option) list \<Rightarrow> (string \<times> pyval) list \<Rightarrow>
     py_error + (string \<times> pyval option) list" where
  "bind_keywords slots [] = Inr slots"
| "bind_keywords slots ((k, v) # kws) =
     (case map_of slots k of
        None \<Rightarrow> Inl TypeError
      | Some (Some _) \<Rightarrow> Inl TypeError
      | Some None \<Rightarrow>
          bind_keywords (map (\<lambda>(k', s). if k' = k then (k', Some v) else (k', s)) slots) kws)"

definition bind_arguments ::
  "string list \<Rightarrow> pyval list \<Rightarrow> (string \<times> pyval) list \<Rightarrow> py_error + pyval option list" where
  "bind_arguments params args kwargs =
     (if length params < length args then Inl TypeError
      else and_then
             (bind_keywords
                (zip params (map Some args @ replicate (length params - length args) None))
                kwargs)
             (\<lambda>slots. Inr (map snd slots)))"

text \<open>
  A value used as one of the two fractions: \<^verbatim>\<open>min(frac, 1.0)\<close> is the first operation
  on it. It orders numbers, and is a \<^verbatim>\<open>TypeError\<close> for \<^verbatim>\<open>None\<close> and for an object
  without ordering; what NumPy does with an array there is not followed.
\<close>

fun py_fraction :: "pyval \<Rightarrow> py_error + real" where
  "py_fraction (PyFloat r) = Inr r"
| "py_fraction (PyInt i) = Inr (real_of_int i)"
| "py_fraction PyNone = Inl TypeError"
| "py_fraction (PyPeriodogram p) = Inl TypeError"
| "py_fraction (PyArray a) = Inl Unmodelled"

text \<open>
  The body of \<^verbatim>\<open>init_knots\<close> on whatever its parameters are bound to, statement by
  statement. The first statement is \<^verbatim>\<open>if n_knots < 2\<close>: it compares integers, and is a
  \<^verbatim>\<open>TypeError\<close> when \<open>n_knots\<close> is \<^verbatim>\<open>None\<close> or a \<^verbatim>\<open>Periodogram\<close> (the dataclass is
  declared without \<^verbatim>\<open>order=True\<close>, so it defines no \<^verbatim>\<open><\<close>). The next statement reads
  \<^verbatim>\<open>periodogram.freqs[0]\<close>: an \<^verbatim>\<open>AttributeError\<close> on anything but a \<^verbatim>\<open>Periodogram\<close>.
  With two knots the function returns before it reads the fractions. A float or an
  array as \<open>n_knots\<close> is not followed.
\<close>

fun init_knots_py :: "pyval \<Rightarrow> pyval \<Rightarrow> pyval \<Rightarrow> pyval \<Rightarrow> py_error + real list" where
  "init_knots_py periodogram (PyInt n_knots) frac_uniform frac_log =
     (if n_knots < 2
      then Inl (ValueError ''At least two knots are required (min and max frequencies).'')
      else case periodogram of
             PyPeriodogram p \<Rightarrow>
               if freqs p = [] then Inl IndexError
               else if n_knots = 2 then init_knots p n_knots 0 0
               else and_then (py_fraction frac_uniform) (\<lambda>fu.
                    and_then (py_fraction frac_log) (\<lambda>fl. init_knots p n_knots fu fl))
           | _ \<Rightarrow> Inl AttributeError)"
| "init_knots_py periodogram PyNone frac_uniform frac_log = Inl TypeError"
| "init_knots_py periodogram (PyPeriodogram q) frac_uniform frac_log = Inl TypeError"
| "init_knots_py periodogram (PyFloat r) frac_uniform frac_log = Inl Unmodelled"
| "init_knots_py periodogram (PyArray a) frac_uniform frac_log = Inl Unmodelled"

text \<open>A call \<^verbatim>\<open>init_knots(*args, **kwargs)\<close>, with the defaults
  \<^verbatim>\<open>frac_uniform=0.0\<close> and \<^verbatim>\<open>frac_log=0.8\<close>.\<close>

definition call_init_knots :: "pyval list \<Rightarrow> (string \<times> pyval) list \<Rightarrow> py_error + real list" where
  "call_init_knots args kwargs =
     and_then
       (bind_arguments [''periodogram'', ''n_knots'', ''frac_uniform'', ''frac_log''] args kwargs)
       (\<lambda>slots.
          case slots of
            [Some periodogram, Some n_knots, frac_uniform, frac_log] \<Rightarrow>
              init_knots_py periodogram n_knots
                (case frac_uniform of None \<Rightarrow> PyFloat 0 | Some v \<Rightarrow> v)
                (case frac_log of None \<Rightarrow> PyFloat (4 / 5) | Some v \<Rightarrow> v)
          | _ \<Rightarrow> Inl TypeError)"

text \<open>\<^verbatim>\<open>a.shape[i]\<close>.\<close>

definition shape_at :: "'a ndarray \<Rightarrow> nat \<Rightarrow> py_error + nat" where
  "shape_at a i = (if i < length (shape a) then Inr (shape a ! i) else Inl IndexError)"

text \<open>
  \<^verbatim>\<open>LogPSplines.from_periodogram\<close>. Its call of \<^verbatim>\<open>init_knots\<close> is
  \<^verbatim>\<open>init_knots(n_knots, periodogram, parametric_model, **knot_kwargs)\<close>. The result
  comes with the stages of the pipeline that were started, in the order in which they
  were started.
\<close>

datatype stage = KnotSelection | BasisAndPenalty | ModelConstruction | WeightInitialisation

definition py_array_option :: "real list option \<Rightarrow> pyval" where
  "py_array_option a = (case a of None \<Rightarrow> PyNone | Some xs \<Rightarrow> PyArray xs)"

definition from_periodogram ::
  "('b, 's) libs \<Rightarrow> Periodogram \<Rightarrow> int \<Rightarrow> int \<Rightarrow> int \<Rightarrow> real list option \<Rightarrow>
     (string \<times> pyval) list \<Rightarrow> stage list \<times> (py_error + LogPSplines)" where
  "from_periodogram L periodogram n_knots deg dmo pm knot_kwargs =
     (case call_init_knots [PyInt n_knots, PyPeriodogram periodogram, py_array_option pm]
             knot_kwargs of
        Inl e \<Rightarrow> ([KnotSelection], Inl e)
      | Inr ks \<Rightarrow>
          (case init_basis_and_penalty L ks deg (periodogram_n periodogram) dmo (1 / 10 ^ 6) of
             Inl e \<Rightarrow> ([KnotSelection, BasisAndPenalty], Inl e)
           | Inr (b, pen) \<Rightarrow>
               (case and_then (shape_at b 1) (\<lambda>m.
                     and_then (jnp_zeros (int m)) (\<lambda>zeros.
                       new_LogPSplines deg dmo (periodogram_n periodogram) b pen ks zeros pm)) of
                  Inl e \<Rightarrow> ([KnotSelection, BasisAndPenalty, ModelConstruction], Inl e)
                | Inr model \<Rightarrow>
                    (case init_weights L (map ln (power' periodogram)) model None 5000 of
                       Inl e \<Rightarrow>
                         ([KnotSelection, BasisAndPenalty, ModelConstruction,
                           WeightInitialisation], Inl e)
                     | Inr w \<Rightarrow>
                         ([KnotSelection, BasisAndPenalty, ModelConstruction,
                           WeightInitialisation], Inr (model\<lparr>weights := w\<rparr>))))))"

section \<open>The stated requirements, and concrete inputs\<close>

text \<open>The valid configurations in the words of the specification: degree in 0..5,
  differential order in 0..2, degree at least the differential order, and at least
  as many knots as the degree.\<close>

definition valid_configuration :: "int \<Rightarrow> int \<Rightarrow> int \<Rightarrow> bool" where
  "valid_configuration deg dmo knot_count =
     (0 \<le> deg \<and> deg \<le> 5 \<and> 0 \<le> dmo \<and> dmo \<le> 2 \<and> dmo \<le> deg \<and> deg \<le> knot_count)"

text \<open>The quadratic form \<open>x\<^sup>T A x\<close> of an \<open>m \<times> m\<close> matrix given by its entries in row-major
  order.\<close>

definition quad_form :: "nat \<Rightarrow> real list \<Rightarrow> real list \<Rightarrow> real" where
  "quad_form m A x = (\<Sum>i<m. \<Sum>j<m. x ! i * A ! (i * m + j) * x ! j)"

text \<open>
  A concrete library for closed examples: the values scikit-fda has for the linear
  B-spline basis on the knots \<open>[0, 1]\<close> (order 2). Its two basis functions are
  \<open>1 - x\<close> and \<open>x\<close>; their Gram matrix is \<open>[[1/3, 1/6], [1/6, 1/3]]\<close> and the Gram matrix
  of their first derivatives is \<open>[[1, -1], [-1, 1]]\<close>. Every other basis is refused, and
  the optimiser entries are inert (a zero gradient and a zero update).
\<close>

definition hat_libs :: "(unit, unit) libs" where
  "hat_libs =
     \<lparr>BSplineBasis = (\<lambda>order ks. if order = 2 \<and> ks = [0, 1] then Inr () else Inl Unmodelled),
      to_grid_data_matrix = (\<lambda>b grid.
         Inr \<lparr>shape = [2, length grid, 1],
              data = map (\<lambda>x. Finite (1 - x)) grid @ map (\<lambda>x. Finite x) grid\<rparr>),
      penalty_matrix_of = (\<lambda>dmo b.
         if dmo = 0 then Inr \<lparr>shape = [2, 2], data = [1 / 3, 1 / 6, 1 / 6, 1 / 3]\<rparr>
         else if dmo = 1 then Inr \<lparr>shape = [2, 2], data = [1, - 1, - 1, 1]\<rparr>
         else Inl Unmodelled),
      build_spline = (\<lambda>b w. Inr []),
      whittle_lnlike = (\<lambda>log_pdgrm spline. Inr 0),
      value_and_grad = (\<lambda>f w. and_then (f w) (\<lambda>loss. Inr (loss, map (\<lambda>_. 0) w))),
      adam_init = (\<lambda>lr w. ()),
      adam_update = (\<lambda>lr grads st. (map (\<lambda>_. 0) grads, st))\<rparr>"

definition example_periodogram :: Periodogram where
  "example_periodogram = \<lparr>freqs = [1, 10, 100], power' = [1, 1, 1], filtered = False\<rparr>"

text \<open>The model that the constructor stores for this basis on the grid \<open>[0, 1]\<close> with
  the first-derivative penalty and \<open>epsilon = 1e-6\<close>, before any weights are fitted.\<close>

definition example_model :: LogPSplines where
  "example_model =
     \<lparr>degree = 1, diffMatrixOrder = 1, n' = 2,
      basis = \<lparr>shape = [2, 2], data = [Finite 2, Finite 0, Finite 0, Finite 2]\<rparr>,
      penalty_matrix = \<lparr>shape = [2, 2],
                        data = [Finite (1 + 1 / 10 ^ 6), Finite (- 1), Finite (- 1),
                                Finite (1 + 1 / 10 ^ 6)]\<rparr>,
      knots = [0, 1], weights = [0, 0], parametric_model = None,
      log_parametric_model_cache = None\<rparr>"

section \<open>Properties\<close>

subsection \<open>Knot selection\<close>

text \<open>
  C5. For every periodogram and every \<open>n_knots < 2\<close>, \<open>init_knots\<close> raises the
  \<^verbatim>\<open>ValueError\<close> of its first statement and returns no knot array; the check comes
  before the periodogram is read, so it holds for the empty periodogram too.
\<close>

theorem init_knots_too_few:
  "n_knots < 2 \<Longrightarrow>
     init_knots periodogram n_knots frac_uniform frac_log =
       Inl (ValueError ''At least two knots are required (min and max frequencies).'')"
  by (simp add: init_knots_def)

theorem init_knots_too_few_witness:
  "(1::int) < 2 \<and>
   init_knots \<lparr>freqs = [1, 2, 3], power' = [1, 1, 1], filtered = False\<rparr> 1 0 (4/5) =
     Inl (ValueError ''At least two knots are required (min and max frequencies).'')"
  using init_knots_too_few [of 1 "\<lparr>freqs = [1, 2, 3], power' = [1, 1, 1], filtered = False\<rparr>" 0 "4/5"]
  by simp

lemma log10_1: "log10 1 = 0"
  by (simp add: log10_def)

lemma log10_100: "log10 100 = 2"
proof -
  have "log 10 (10 powr 2) = (2::real)" by (rule log_powr_cancel) simp_all
  moreover have "(10::real) powr 2 = 100" by simp
  ultimately show ?thesis by (simp add: log10_def)
qed

text \<open>
  C3. With \<open>n_knots = 2\<close>, \<^verbatim>\<open>init_knots\<close> returns \<^verbatim>\<open>[min_freq, max_freq]\<close> from its early
  return, before the normalisation of its last statement: for the frequencies
  1, 10, 100 the result is \<open>[1, 100]\<close>, not \<open>[0, 1]\<close>.
\<close>

theorem init_knots_two_knots_unnormalised:
  "init_knots example_periodogram 2 0 (4 / 5) = Inr [1, 100]"
  by (simp add: init_knots_def example_periodogram_def)

text \<open>
  C4. Each fraction is clamped to \<open>[0, 1]\<close> on its own, so their sum can exceed one:
  with \<open>n_knots = 3\<close> and both fractions equal to one, there is one uniform and one
  logarithmic interior knot, and \<^verbatim>\<open>init_knots\<close> returns four knots.
\<close>

theorem init_knots_too_many_knots:
  "init_knots example_periodogram 3 1 1 = Inr [0, 1 / 11, 1 / 2, 1]"
  by (simp add: init_knots_def example_periodogram_def Let_def py_int_def density_knots_def
      log10_1 log10_100 linspace_def logspace_def inner_slice_def upt_rec)

subsection \<open>Knot selection in the regular case\<close>

lemma length_linspace: "length (linspace a b k) = k"
  by (simp add: linspace_def)

lemma length_inner_slice: "length (inner_slice xs) = length xs - 2"
  by (simp add: inner_slice_def)

lemma set_inner_slice: "set (inner_slice xs) \<subseteq> set xs"
proof
  fix x assume "x \<in> set (inner_slice xs)"
  then have "x \<in> set (tl xs)" unfolding inner_slice_def by (rule in_set_butlastD)
  then show "x \<in> set xs" by (cases xs) simp_all
qed

lemma linspace_bounds:
  assumes "a \<le> b" "x \<in> set (linspace a b k)"
  shows "a \<le> x \<and> x \<le> b"
proof (cases "k = 0 \<or> k = 1")
  case True
  then show ?thesis using assms by (auto simp: linspace_def)
next
  case False
  then have k: "2 \<le> k" by simp
  from assms(2) k consider "x = b" | i where "i < k - 1" "x = a + real i * ((b - a) / real (k - 1))"
    by (auto simp: linspace_def)
  then show ?thesis
  proof cases
    case 1
    then show ?thesis using assms(1) by simp
  next
    case 2
    have pos: "0 < real (k - 1)" using k by simp
    define u where "u = (real i / real (k - 1)) * (b - a)"
    have t: "0 \<le> real i / real (k - 1)" "real i / real (k - 1) \<le> 1"
      using 2(1) pos by simp_all
    have "0 \<le> u"
      unfolding u_def using assms(1) t(1) by (intro mult_nonneg_nonneg) simp_all
    moreover have "u \<le> 1 * (b - a)"
      unfolding u_def using assms(1) t(2) by (intro mult_right_mono) simp_all
    moreover have "x = a + u" using 2(2) by (simp add: u_def)
    ultimately show ?thesis by simp
  qed
qed

lemma logspace_bounds:
  assumes "0 < a" "a \<le> b" "x \<in> set (logspace (log10 a) (log10 b) k)"
  shows "a \<le> x \<and> x \<le> b"
proof -
  from assms(3) obtain y where y: "y \<in> set (linspace (log10 a) (log10 b) k)" "x = 10 powr y"
    by (auto simp: logspace_def)
  have "log10 a \<le> log10 b" using assms(1,2) by (simp add: log10_def)
  then have "log10 a \<le> y \<and> y \<le> log10 b" using y(1) by (rule linspace_bounds)
  then have "10 powr log10 a \<le> x \<and> x \<le> 10 powr log10 b"
    unfolding y(2) by (simp add: powr_mono)
  then show ?thesis using assms(1,2) by (simp add: log10_def)
qed

lemma length_cumsum_from: "length (cumsum_from acc xs) = length xs"
  by (induction xs arbitrary: acc) simp_all

lemma sorted_hd_le_last: "sorted ys \<Longrightarrow> ys \<noteq> [] \<Longrightarrow> hd ys \<le> (last ys :: real)"
  by (cases ys) (auto dest: last_in_set)

lemma interp_walk_bounds:
  assumes "sorted fp" "length xp = length fp" "fp \<noteq> []" "hd xp \<le> x"
  shows "hd fp \<le> interp_walk x xp fp \<and> interp_walk x xp fp \<le> last fp"
  using assms
proof (induction x xp fp rule: interp_walk.induct)
  case (1 x x0 x1 xp y0 y1 fp)
  have y01: "y0 \<le> y1" and y1l: "y1 \<le> last (y1 # fp)" and sorted1: "sorted (y1 # fp)"
    using "1.prems"(1) by (auto simp: last_ConsR dest: last_in_set)
  show ?case
  proof (cases "x < x1")
    case True
    have x0: "x0 \<le> x" using "1.prems"(4) by simp
    show ?thesis
    proof (cases "x0 = x")
      case True
      then show ?thesis using \<open>x < x1\<close> y01 y1l by simp
    next
      case False
      define t where "t = (x - x0) / (x1 - x0)"
      define u where "u = t * (y1 - y0)"
      have t: "0 \<le> t" "t \<le> 1" using x0 True False by (simp_all add: t_def)
      have "0 \<le> u"
        unfolding u_def using y01 t(1) by (intro mult_nonneg_nonneg) simp_all
      moreover have "u \<le> 1 * (y1 - y0)"
        unfolding u_def using y01 t(2) by (intro mult_right_mono) simp_all
      moreover have "interp_walk x (x0 # x1 # xp) (y0 # y1 # fp) = y0 + u"
        using True False by (simp add: t_def u_def)
      ultimately show ?thesis using y1l by simp
    qed
  next
    case False
    then have "hd (y1 # fp) \<le> interp_walk x (x1 # xp) (y1 # fp) \<and>
               interp_walk x (x1 # xp) (y1 # fp) \<le> last (y1 # fp)"
      using "1.IH" sorted1 "1.prems"(2) by simp
    then show ?thesis using False y01 by simp
  qed
qed (use sorted_hd_le_last in force)+

lemma density_knots_regular:
  assumes "sorted (freqs p)" "freqs p \<noteq> []" "length (power' p) = length (freqs p)" "0 \<le> nd"
    and "sum_list (power' p) \<noteq> 0"
  shows "\<exists>ds. density_knots p nd = Inr ds \<and> length ds = nat nd \<and>
              (\<forall>x\<in>set ds. hd (freqs p) \<le> x \<and> x \<le> last (freqs p))"
proof (cases "0 < nd")
  case False
  then show ?thesis using assms(4) by (simp add: density_knots_def)
next
  case True
  define cdf where "cdf = cumsum (map (\<lambda>q. q / sum_list (power' p)) (power' p))"
  define qs where "qs = inner_slice (linspace 0 1 (nat (nd + 2)))"
  have len: "length cdf = length (freqs p)"
    by (simp add: cdf_def cumsum_def length_cumsum_from assms(3))
  then have ne: "cdf \<noteq> []" using assms(2) by auto
  have res: "density_knots p nd = Inr (map (\<lambda>x. interp1 x cdf (freqs p)) qs)"
    using True len ne assms(5) by (simp add: density_knots_def Let_def interp_def cdf_def qs_def)
  have "length qs = nat nd"
    using True by (simp add: qs_def length_inner_slice length_linspace nat_add_distrib)
  moreover have "hd (freqs p) \<le> interp1 x cdf (freqs p) \<and> interp1 x cdf (freqs p) \<le> last (freqs p)" for x
  proof (cases "x < hd cdf")
    case True
    then show ?thesis using sorted_hd_le_last [OF assms(1,2)] by (simp add: interp1_def)
  next
    case False
    then have "hd cdf \<le> x" by simp
    with assms(1) len assms(2) have "hd (freqs p) \<le> interp_walk x cdf (freqs p) \<and>
        interp_walk x cdf (freqs p) \<le> last (freqs p)"
      by (rule interp_walk_bounds)
    then show ?thesis using False by (simp add: interp1_def)
  qed
  ultimately show ?thesis using res by auto
qed

lemma sorted_hd_least:
  fixes ys :: "real list"
  assumes "sorted ys" "x \<in> set ys" "\<forall>y\<in>set ys. x \<le> y"
  shows "hd ys = x"
proof -
  have ne: "ys \<noteq> []" using assms(2) by auto
  then have "hd ys \<in> set ys" by simp
  then have "x \<le> hd ys" using assms(3) by blast
  moreover have "hd ys \<le> x" using assms(1,2) ne by (cases ys) auto
  ultimately show ?thesis by simp
qed

lemma sorted_le_last: "sorted ys \<Longrightarrow> y \<in> set ys \<Longrightarrow> y \<le> (last ys :: real)"
proof (induction ys)
  case Nil
  then show ?case by simp
next
  case (Cons a ys)
  show ?case
  proof (cases "ys = []")
    case True
    then show ?thesis using Cons.prems by simp
  next
    case False
    then have "last ys \<in> set ys" by simp
    then show ?thesis using Cons False by auto
  qed
qed

lemma sorted_last_greatest:
  fixes ys :: "real list"
  assumes "sorted ys" "x \<in> set ys" "\<forall>y\<in>set ys. y \<le> x"
  shows "last ys = x"
proof -
  have ne: "ys \<noteq> []" using assms(2) by auto
  then have "last ys \<in> set ys" by simp
  then have "last ys \<le> x" using assms(3) by blast
  moreover have "x \<le> last ys" using assms(1,2) by (rule sorted_le_last)
  ultimately show ?thesis by simp
qed

lemma floor_fractions:
  fixes a b :: real and k :: int
  assumes "0 \<le> a" "0 \<le> b" "a + b \<le> 1" "0 \<le> k"
  shows "0 \<le> \<lfloor>a * real_of_int k\<rfloor>" "\<lfloor>a * real_of_int k\<rfloor> + \<lfloor>b * real_of_int k\<rfloor> \<le> k"
proof -
  show "0 \<le> \<lfloor>a * real_of_int k\<rfloor>" using assms(1,4) by simp
  have "\<lfloor>a * real_of_int k\<rfloor> + \<lfloor>b * real_of_int k\<rfloor> \<le> \<lfloor>a * real_of_int k + b * real_of_int k\<rfloor>"
    by (rule le_floor_add)
  also have "a * real_of_int k + b * real_of_int k = (a + b) * real_of_int k"
    by (simp add: algebra_simps)
  also have "\<lfloor>(a + b) * real_of_int k\<rfloor> \<le> \<lfloor>1 * real_of_int k\<rfloor>"
    using assms(3,4) by (intro floor_mono mult_right_mono) simp_all
  finally show "\<lfloor>a * real_of_int k\<rfloor> + \<lfloor>b * real_of_int k\<rfloor> \<le> k" by simp
qed

lemma strictly_increasing_ends:
  fixes xs :: "real list"
  assumes "sorted_wrt (<) xs" "2 \<le> length xs"
  shows "sorted xs" "hd xs < last xs"
proof -
  show "sorted xs" using assms(1) by (rule sorted_wrt_mono_rel [rotated]) simp
  obtain a b rest where xs: "xs = a # b # rest"
    using assms(2) by (cases xs; cases "tl xs") auto
  have "last xs \<in> set (b # rest)" unfolding xs by simp
  then show "hd xs < last xs" using assms(1) unfolding xs by auto
qed

text \<open>
  The regular case of the knot selection. For at least three knots, strictly increasing
  positive frequencies (at least two of them), as many powers as frequencies, and
  fractions whose clamped values sum to at most one, \<^verbatim>\<open>init_knots\<close> returns exactly
  \<open>n_knots\<close> knots, in non-decreasing order, the first 0 and the last 1. The powers
  are taken non-negative with a positive sum: there the cumulative distribution is
  non-decreasing, as \<^verbatim>\<open>np.interp\<close> expects, and no division by zero occurs.
\<close>

lemma init_knots_regular:
  assumes n: "3 \<le> n_knots"
    and inc: "sorted_wrt (<) (freqs p)" and two: "2 \<le> length (freqs p)"
    and pos: "0 < hd (freqs p)"
    and plen: "length (power' p) = length (freqs p)"
    and pnn: "list_all (\<lambda>x. 0 \<le> x) (power' p)" and psum: "0 < sum_list (power' p)"
    and frac: "max 0 (min fu 1) + max 0 (min fl 1) \<le> 1"
  shows "\<exists>ks. init_knots p n_knots fu fl = Inr ks \<and> length ks = nat n_knots \<and>
              sorted ks \<and> hd ks = 0 \<and> last ks = 1"
proof -
  define lo where "lo = hd (freqs p)"
  define hi where "hi = last (freqs p)"
  define k where "k = n_knots - 2"
  define cu where "cu = max 0 (min fu 1)"
  define cl where "cl = max 0 (min fl 1)"
  define nu where "nu = (if cu > 0 then py_int (cu * real_of_int k) else 0)"
  define nl where "nl = (if cl > 0 then py_int (cl * real_of_int k) else 0)"
  define U where "U = (if nu > 0 then inner_slice (linspace lo hi (nat (nu + 2))) else [])"
  define G where "G = (if nl > 0 then inner_slice (logspace (log10 lo) (log10 hi) (nat (nl + 2))) else [])"
  define f where "f = (\<lambda>x. (x - lo) / (hi - lo))"
  have ne: "freqs p \<noteq> []" using two by auto
  have srt: "sorted (freqs p)" and lohi: "lo < hi"
    using strictly_increasing_ends [OF inc two] by (simp_all add: lo_def hi_def)
  have k: "1 \<le> k" using n by (simp add: k_def)
  have c: "0 \<le> cu" "0 \<le> cl" "cu + cl \<le> 1" using frac by (simp_all add: cu_def cl_def)
  have nu: "nu = \<lfloor>cu * real_of_int k\<rfloor>"
    using c(1) k by (cases "0 < cu") (simp_all add: nu_def py_int_def)
  have nl: "nl = \<lfloor>cl * real_of_int k\<rfloor>"
    using c(2) k by (cases "0 < cl") (simp_all add: nl_def py_int_def)
  have nn: "0 \<le> nu" "0 \<le> nl" "nu + nl \<le> k"
    unfolding nu nl using floor_fractions [OF c, of k] floor_fractions(1) [OF c(2) c(1), of k] c k
    by (simp_all add: add.commute)
  have lenU: "length U = nat nu"
    using nn(1) by (simp add: U_def length_inner_slice length_linspace nat_add_distrib)
  have lenG: "length G = nat nl"
    using nn(2) by (simp add: G_def length_inner_slice length_linspace logspace_def nat_add_distrib)
  have inU: "lo \<le> x \<and> x \<le> hi" if "x \<in> set U" for x
  proof -
    from that have "x \<in> set (linspace lo hi (nat (nu + 2)))"
      using set_inner_slice [of "linspace lo hi (nat (nu + 2))"]
      by (auto simp: U_def split: if_splits)
    with lohi show ?thesis by (intro linspace_bounds) simp_all
  qed
  have inG: "lo \<le> x \<and> x \<le> hi" if "x \<in> set G" for x
  proof -
    from that have "x \<in> set (logspace (log10 lo) (log10 hi) (nat (nl + 2)))"
      using set_inner_slice [of "logspace (log10 lo) (log10 hi) (nat (nl + 2))"]
      by (auto simp: G_def split: if_splits)
    with pos lohi show ?thesis by (intro logspace_bounds) (simp_all add: lo_def)
  qed
  obtain D where D: "density_knots p (k - (nu + nl)) = Inr D" "length D = nat (k - (nu + nl))"
      and inD: "\<forall>x\<in>set D. lo \<le> x \<and> x \<le> hi"
    using density_knots_regular [OF srt ne plen, of "k - (nu + nl)"] nn(3) psum
    by (auto simp: lo_def hi_def)
  define l where "l = [lo] @ U @ G @ D @ [hi]"
  have res: "init_knots p n_knots fu fl = Inr (map f (sort l))"
  proof -
    have "max 0 (k - (nu + nl)) = k - (nu + nl)" using nn(3) by simp
    moreover have "last (freqs p) \<noteq> hd (freqs p)" using lohi by (simp add: lo_def hi_def)
    ultimately show ?thesis
      using n ne D(1)
      unfolding l_def f_def U_def G_def nu_def nl_def cu_def cl_def k_def lo_def hi_def
        init_knots_def Let_def
      by simp
  qed
  have inl: "\<forall>x\<in>set (sort l). lo \<le> x \<and> x \<le> hi"
  proof -
    have "\<forall>x\<in>set l. lo \<le> x \<and> x \<le> hi"
      using inU inG inD lohi by (auto simp: l_def)
    then show ?thesis by (simp only: set_sort)
  qed
  have mem: "lo \<in> set (sort l)" "hi \<in> set (sort l)"
  proof -
    have "lo \<in> set l" "hi \<in> set l" by (simp_all add: l_def)
    then show "lo \<in> set (sort l)" "hi \<in> set (sort l)" by (simp_all only: set_sort)
  qed
  have srtl: "sorted (sort l)" by (rule sorted_sort)
  have nel: "sort l \<noteq> []" using mem(1) by (metis empty_iff empty_set)
  have hdl: "hd (sort l) = lo"
    using srtl mem(1) inl by (intro sorted_hd_least) blast+
  have lastl: "last (sort l) = hi"
    using srtl mem(2) inl by (intro sorted_last_greatest) blast+
  have "hd (map f (sort l)) = f lo" by (simp only: hd_map [OF nel] hdl)
  moreover have "last (map f (sort l)) = f hi" by (simp only: last_map [OF nel] lastl)
  moreover have "f lo = 0" "f hi = 1" using lohi by (simp_all add: f_def)
  ultimately have ends: "hd (map f (sort l)) = 0" "last (map f (sort l)) = 1"
    by simp_all
  have srtf: "sorted (map f (sort l))"
  proof -
    have mono: "f x \<le> f y" if "x \<le> y" for x y
      using that lohi by (simp add: f_def divide_right_mono)
    have "sorted_wrt (\<lambda>x y. f x \<le> f y) (sort l)"
      using srtl by (rule sorted_wrt_mono_rel [rotated]) (rule mono)
    then show ?thesis by (simp only: sorted_map)
  qed
  have lenf: "length (map f (sort l)) = nat n_knots"
  proof -
    have "length l = Suc (nat nu + nat nl + nat (k - (nu + nl)) + 1)"
      using lenU lenG D(2) by (simp add: l_def)
    also have "\<dots> = nat n_knots" using nn k unfolding k_def by linarith
    finally show ?thesis by (simp only: length_map length_sort)
  qed
  show ?thesis
  proof (intro exI conjI)
    show "init_knots p n_knots fu fl = Inr (map f (sort l))" by (rule res)
    show "length (map f (sort l)) = nat n_knots" by (rule lenf)
    show "sorted (map f (sort l))" by (rule srtf)
    show "hd (map f (sort l)) = 0" by (rule ends(1))
    show "last (map f (sort l)) = 1" by (rule ends(2))
  qed
qed

subsection \<open>Facts about arrays\<close>

lemma and_then_eq_Inr: "and_then x f = Inr y \<longleftrightarrow> (\<exists>z. x = Inr z \<and> f z = Inr y)"
  by (cases x) auto

lemma length_chunks: "length (chunks k len xs) = k"
  by (induction k arbitrary: xs) auto

lemma chunks_lengths: "length xs = k * len \<Longrightarrow> c \<in> set (chunks k len xs) \<Longrightarrow> length c = len"
proof (induction k arbitrary: xs)
  case 0
  then show ?case by simp
next
  case (Suc k)
  have "length (drop len xs) = k * len" using Suc.prems(1) by simp
  with Suc.IH [of "drop len xs"] Suc.prems show ?case by auto
qed

lemma chunks_subset: "c \<in> set (chunks k len xs) \<Longrightarrow> set c \<subseteq> set xs"
proof (induction k arbitrary: xs)
  case 0
  then show ?case by simp
next
  case (Suc k)
  then show ?case
    by (auto dest: in_set_takeD in_set_dropD)
qed

lemma length_concat_const:
  "(\<And>p. p \<in> set ps \<Longrightarrow> length (f p) = d) \<Longrightarrow> length (concat (map f ps)) = length ps * d"
  by (induction ps) auto

lemma length_transpose_data:
  "length xs = prod_list sh \<Longrightarrow> length (transpose_data sh xs) = prod_list sh"
proof (induction sh arbitrary: xs)
  case Nil
  then show ?case by simp
next
  case (Cons d ds)
  have "length (concat (map (\<lambda>p. map (\<lambda>b. b ! p) (map (transpose_data ds) (chunks d (prod_list ds) xs)))
          [0..<prod_list ds])) = length [0..<prod_list ds] * d"
    by (rule length_concat_const) (simp add: length_chunks)
  then show ?case by (simp add: Let_def)
qed

lemma set_transpose_data:
  "length xs = prod_list sh \<Longrightarrow> set (transpose_data sh xs) \<subseteq> set xs"
proof (induction sh arbitrary: xs)
  case Nil
  then show ?case by simp
next
  case (Cons d ds)
  have lxs: "length xs = d * prod_list ds" using Cons.prems by simp
  show ?case
  proof
    fix y assume "y \<in> set (transpose_data (d # ds) xs)"
    then obtain p c where p: "p < prod_list ds" and c: "c \<in> set (chunks d (prod_list ds) xs)"
      and y: "y = transpose_data ds c ! p"
      by (auto simp: Let_def)
    have len: "length c = prod_list ds"
      using lxs c by (rule chunks_lengths)
    have "length (transpose_data ds c) = prod_list ds"
      using len by (rule length_transpose_data)
    then have "y \<in> set (transpose_data ds c)"
      unfolding y using p by (metis nth_mem)
    moreover have "set (transpose_data ds c) \<subseteq> set c" using len by (rule Cons.IH)
    moreover have "set c \<subseteq> set xs" using c by (rule chunks_subset)
    ultimately show "y \<in> set xs" by blast
  qed
qed

lemma length_norm_factor:
  assumes "0 \<le> deg"
  shows "length (norm_factor ks deg) = nat (int (length ks) + deg - 1)"
proof -
  obtain d where d: "deg = int d" using assms nat_0_le by metis
  define kwb where "kwb = replicate d (0::real) @ ks @ replicate d 1"
  have len: "length kwb = d + length ks + d" by (simp add: kwb_def)
  have mid: "length (drop (nat (int d + 1)) kwb) = length ks + d - 1"
    using len by (simp add: nat_add_distrib)
  have start: "length (slice_to kwb (int (length kwb) - int d - 1)) = length ks + d - 1"
  proof (cases "length ks + d = 0")
    case True
    then show ?thesis using len by (simp add: slice_to_def)
  next
    case False
    then have "int (length kwb) - int d - 1 = int (length ks + d - 1)"
      using len False by linarith
    then show ?thesis using len by (simp add: slice_to_def)
  qed
  have "norm_factor ks deg =
          map (\<lambda>x. if x = 0 then PosInf else Finite x)
            (map2 (\<lambda>hi lo. (hi - lo) / real_of_int (deg + 1))
               (drop (nat (int d + 1)) kwb) (slice_to kwb (int (length kwb) - int d - 1)))"
    by (simp add: norm_factor_def Let_def d kwb_def)
  then have "length (norm_factor ks deg) =
          min (length (drop (nat (int d + 1)) kwb))
              (length (slice_to kwb (int (length kwb) - int d - 1)))"
    by (simp only: length_map length_zip)
  also have "\<dots> = length ks + d - 1"
    by (simp only: mid start min.idem)
  also have "\<dots> = nat (int (length ks) + deg - 1)"
    unfolding d by linarith
  finally show ?thesis .
qed

lemma norm_factor_entries:
  "v \<in> set (norm_factor ks deg) \<Longrightarrow> v = PosInf \<or> (\<exists>x. x \<noteq> 0 \<and> v = Finite x)"
  by (auto simp: norm_factor_def Let_def)

lemma np_div_finite:
  "is_finite a \<Longrightarrow> v = PosInf \<or> (\<exists>x. x \<noteq> 0 \<and> v = Finite x) \<Longrightarrow> is_finite (np_div a v)"
  by (cases a) auto

lemma np_div_PosInf: "is_finite a \<Longrightarrow> np_div a PosInf = Finite 0"
  by (cases a) auto

lemma divide_succeeds:
  assumes "shape D = [m, n, 1]" "length v = m"
  shows "\<exists>B. divide_by_vector (ndarray_T (squeeze D)) v = Inr B"
proof -
  have sh: "rev (shape (ndarray_T (squeeze D))) = (if m = 1 then [] else [m]) @ (if n = 1 then [] else [n])"
    using assms(1) by (simp add: ndarray_T_def squeeze_def)
  show ?thesis
  proof (cases "m = 1")
    case True
    then show ?thesis using sh assms(2) by (cases "n = 1") (simp_all add: divide_by_vector_def Let_def)
  next
    case False
    then show ?thesis using sh assms(2) by (simp add: divide_by_vector_def Let_def)
  qed
qed

subsection \<open>The basis matrix\<close>

text \<open>
  C6. \<^verbatim>\<open>.squeeze()\<close> removes every axis of length one, not only the trailing axis of
  scikit-fda's data matrix. On a grid of one point, the data matrix of the two linear
  basis functions has shape \<open>(2, 1, 1)\<close>, and the basis matrix that
  \<^verbatim>\<open>init_basis_and_penalty\<close> returns is the one-dimensional array \<open>[2, 0]\<close> of shape
  \<open>(2)\<close>, not a matrix of shape \<open>(1, 2)\<close>.
\<close>

theorem basis_matrix_one_grid_point:
  "map_sum id (\<lambda>r. (shape (fst r), data (fst r)))
     (init_basis_and_penalty hat_libs [0, 1] 1 1 0 (1 / 10 ^ 6)) =
   Inr ([2], [Finite 2, Finite 0])"
  by (simp add: init_basis_and_penalty_def hat_libs_def np_linspace_def linspace_def squeeze_def
      ndarray_T_def norm_factor_def slice_to_def divide_by_vector_def rescale_by_max_def np_max_def
      add_ridge_def eye_def np_add_def Let_def numeral_2_eq_2 upt_rec)

lemma basis_pipeline:
  assumes "init_basis_and_penalty L ks deg n_grid dmo eps = Inr (B, P)"
    and "BSplineBasis L (deg + 1) ks = Inr b"
    and "0 \<le> n_grid"
    and "to_grid_data_matrix L b (linspace 0 1 (nat n_grid)) = Inr D"
  shows "divide_by_vector (ndarray_T (squeeze D)) (norm_factor ks deg) = Inr B"
  using assms
  by (auto simp: init_basis_and_penalty_def Let_def and_then_eq_Inr np_linspace_def split: if_splits)

lemma divide_regular:
  assumes "shape D = [m, n, 1]" "length (data D) = m * n" "length v = m" "m \<noteq> 1" "n \<noteq> 1"
  shows "divide_by_vector (ndarray_T (squeeze D)) v =
           Inr \<lparr>shape = [n, m],
                data = map (\<lambda>q. np_div (transpose_data [m, n] (data D) ! q) (v ! (q mod m)))
                         [0..<n * m]\<rparr>"
proof -
  have sq: "squeeze D = \<lparr>shape = [m, n], data = data D\<rparr>"
    using assms(1,4,5) by (simp add: squeeze_def)
  have len: "length (transpose_data [m, n] (data D)) = n * m"
    using length_transpose_data [of "data D" "[m, n]"] assms(2) by (simp add: mult.commute)
  have "map (\<lambda>(i, x). np_div x (v ! (i mod m))) (enumerate 0 (transpose_data [m, n] (data D))) =
        map (\<lambda>q. np_div (transpose_data [m, n] (data D) ! q) (v ! (q mod m))) [0..<n * m]"
    using len by (intro nth_equalityI) (simp_all add: nth_enumerate_eq)
  then show ?thesis
    using assms(3) by (simp add: divide_by_vector_def ndarray_T_def sq Let_def del: transpose_data.simps)
qed

text \<open>The factor of column \<open>j\<close> is \<^verbatim>\<open>inf\<close> exactly when the window of the padded
  knots that belongs to the column has zero span.\<close>

lemma norm_factor_zero_span:
  assumes deg: "0 \<le> deg" and j: "j < length (norm_factor ks deg)"
  shows "norm_factor ks deg ! j = PosInf \<longleftrightarrow>
         (replicate (nat deg) 0 @ ks @ replicate (nat deg) 1) ! (j + nat deg + 1) =
         (replicate (nat deg) 0 @ ks @ replicate (nat deg) 1) ! j"
proof -
  define d where "d = nat deg"
  define kwb where "kwb = replicate d (0::real) @ ks @ replicate d 1"
  have degd: "deg = int d" using deg by (simp add: d_def)
  have len: "length kwb = d + length ks + d" by (simp add: kwb_def)
  have jm: "j < length ks + d - 1"
    using j length_norm_factor [OF deg, of ks] degd by linarith
  then have ne: "length ks + d \<noteq> 0" by linarith
  have stop: "int (length kwb) - int d - 1 = int (length ks + d - 1)"
    using len ne by linarith
  have start: "slice_to kwb (int (length kwb) - int d - 1) = take (length ks + d - 1) kwb"
    unfolding stop by (simp add: slice_to_def)
  have nf: "norm_factor ks deg =
          map (\<lambda>x. if x = 0 then PosInf else Finite x)
            (map2 (\<lambda>hi lo. (hi - lo) / real_of_int (deg + 1))
               (drop (Suc d) kwb) (take (length ks + d - 1) kwb))"
  proof -
    have "nat (int d + 1) = Suc d" by simp
    then show ?thesis
      using start by (simp add: norm_factor_def Let_def degd kwb_def)
  qed
  have jz: "j < length (zip (drop (Suc d) kwb) (take (length ks + d - 1) kwb))"
    using jm len by simp
  have "norm_factor ks deg ! j =
        (if (kwb ! (Suc d + j) - kwb ! j) / real_of_int (deg + 1) = 0 then PosInf
         else Finite ((kwb ! (Suc d + j) - kwb ! j) / real_of_int (deg + 1)))"
    unfolding nf using jz jm len by (simp add: nth_append)
  moreover have "real_of_int (deg + 1) \<noteq> 0" using deg by simp
  ultimately have "norm_factor ks deg ! j = PosInf \<longleftrightarrow> kwb ! (Suc d + j) = kwb ! j"
    by simp
  then show ?thesis by (simp add: kwb_def degd add.commute)
qed

text \<open>
  The regular case. When neither the grid nor the basis has length one and
  scikit-fda's data matrix is finite, the basis matrix that \<^verbatim>\<open>init_basis_and_penalty\<close>
  returns has shape \<open>(n, m)\<close> with \<open>m = n_knots + degree - 1\<close>, every entry of it is
  finite, and a column whose normalisation window has zero span (so that its factor is
  \<^verbatim>\<open>inf\<close>) is zero. Division is exact here: overflow of a quotient is not represented.
\<close>

lemma basis_matrix_regular:
  assumes deg: "0 \<le> deg" and grid: "0 \<le> n_grid"
    and bas: "BSplineBasis L (deg + 1) ks = Inr b"
    and dm: "to_grid_data_matrix L b (linspace 0 1 (nat n_grid)) = Inr D"
    and dsh: "shape D = [m, nat n_grid, 1]" and dlen: "length (data D) = m * nat n_grid"
    and fin: "list_all is_finite (data D)"
    and msize: "int m = int (length ks) + deg - 1"
    and regular: "m \<noteq> 1" "nat n_grid \<noteq> 1"
    and ret: "init_basis_and_penalty L ks deg n_grid dmo eps = Inr (B, P)"
  shows "shape B = [nat n_grid, m] \<and> length (data B) = nat n_grid * m
       \<and> list_all is_finite (data B)
       \<and> (\<forall>j<m. norm_factor ks deg ! j = PosInf \<longrightarrow>
             (\<forall>i<nat n_grid. data B ! (i * m + j) = Finite 0))"
proof -
  define n where "n = nat n_grid"
  define v where "v = norm_factor ks deg"
  define td where "td = transpose_data [m, n] (data D)"
  have vlen: "length v = m"
    using length_norm_factor [OF deg, of ks] msize unfolding v_def by linarith
  have tdlen: "length td = n * m"
    using length_transpose_data [of "data D" "[m, n]"] dlen by (simp add: td_def n_def mult.commute)
  have tdfin: "is_finite (td ! q)" if "q < n * m" for q
  proof -
    have "td ! q \<in> set td" using that tdlen by simp
    moreover have "set td \<subseteq> set (data D)"
      unfolding td_def using dlen by (intro set_transpose_data) (simp add: n_def)
    ultimately show ?thesis using fin by (auto simp: list_all_iff)
  qed
  have "divide_by_vector (ndarray_T (squeeze D)) v = Inr B"
    unfolding v_def using ret bas grid dm by (rule basis_pipeline)
  moreover have "divide_by_vector (ndarray_T (squeeze D)) v =
      Inr \<lparr>shape = [n, m], data = map (\<lambda>q. np_div (td ! q) (v ! (q mod m))) [0..<n * m]\<rparr>"
    unfolding td_def using dsh dlen vlen regular by (intro divide_regular) (simp_all add: n_def)
  ultimately have B: "B = \<lparr>shape = [n, m], data = map (\<lambda>q. np_div (td ! q) (v ! (q mod m))) [0..<n * m]\<rparr>"
    by simp
  have mpos: "0 < m" if "q < n * m" for q using that by (cases m) simp_all
  have finB: "list_all is_finite (data B)"
  proof -
    have "is_finite (np_div (td ! q) (v ! (q mod m)))" if q: "q < n * m" for q
    proof -
      have "v ! (q mod m) \<in> set v" using mpos [OF q] vlen by simp
      then have "v ! (q mod m) = PosInf \<or> (\<exists>x. x \<noteq> 0 \<and> v ! (q mod m) = Finite x)"
        unfolding v_def by (rule norm_factor_entries)
      with tdfin [OF q] show ?thesis by (rule np_div_finite)
    qed
    then show ?thesis by (simp add: B list_all_iff)
  qed
  have zero: "data B ! (i * m + j) = Finite 0"
    if "j < m" "v ! j = PosInf" "i < n" for i j
  proof -
    have q: "i * m + j < n * m"
    proof -
      have "i * m + j < Suc i * m" using that(1) by simp
      also have "\<dots> \<le> n * m" using that(3) by (intro mult_le_mono1) simp
      finally show ?thesis .
    qed
    then have "data B ! (i * m + j) = np_div (td ! (i * m + j)) (v ! j)"
      using that(1) by (simp add: B)
    then show ?thesis using tdfin [OF q] that(2) by (simp add: np_div_PosInf)
  qed
  show ?thesis using finB zero by (simp add: B n_def v_def)
qed

subsection \<open>The penalty matrix\<close>

lemma np_max_eq:
  assumes "xs \<noteq> []"
  shows "np_max xs = Inr (Max (set xs))"
proof (cases xs)
  case Nil
  with assms show ?thesis by simp
next
  case (Cons a rest)
  show ?thesis using Max.set_eq_fold [of a rest] by (simp add: Cons np_max_def)
qed

lemma Max_scaled:
  fixes c :: real
  assumes "xs \<noteq> []" "0 < c"
  shows "Max (set (map (\<lambda>x. x / c) xs)) = Max (set xs) / c"
proof -
  have "mono (\<lambda>x::real. x / c)" using assms(2) by (simp add: mono_def divide_right_mono)
  then have "(\<lambda>x. x / c) (Max (set xs)) = Max ((\<lambda>x. x / c) ` set xs)"
    using assms(1) by (intro mono_Max_commute) simp_all
  then show ?thesis by simp
qed

lemma rescale_result:
  assumes "\<exists>g\<in>set (data G). 0 < g"
  shows "rescale_by_max G =
           Inr \<lparr>shape = shape G, data = map Finite (map (\<lambda>x. x / Max (set (data G))) (data G))\<rparr>"
    and "0 < Max (set (data G))"
    and "Max (set (map (\<lambda>x. x / Max (set (data G))) (data G))) = 1"
proof -
  from assms obtain g where g: "g \<in> set (data G)" "0 < g" by blast
  then have ne: "data G \<noteq> []" by auto
  have "g \<le> Max (set (data G))" using g(1) by simp
  then show top: "0 < Max (set (data G))" using g(2) by linarith
  then have "np_div (Finite x) (Finite (Max (set (data G)))) = Finite (x / Max (set (data G)))" for x
    by simp
  then show "rescale_by_max G =
      Inr \<lparr>shape = shape G, data = map Finite (map (\<lambda>x. x / Max (set (data G))) (data G))\<rparr>"
    by (simp add: rescale_by_max_def np_max_eq [OF ne])
  have "Max (set (map (\<lambda>x. x / Max (set (data G))) (data G))) =
        Max (set (data G)) / Max (set (data G))"
    using ne top by (rule Max_scaled)
  also have "\<dots> = 1" using top by simp
  finally show "Max (set (map (\<lambda>x. x / Max (set (data G))) (data G))) = 1" .
qed

lemma ridge_entries:
  assumes "shape R = [m, m]" "data R = map Finite r" "length r = m * m"
  shows "add_ridge R eps = Inr \<lparr>shape = [m, m],
           data = map Finite
                    (map (\<lambda>q. r ! q + eps * (if q div m = q mod m then 1 else 0)) [0..<m * m])\<rparr>"
proof -
  have "map2 np_plus (map Finite r) (map (\<lambda>x. Finite (eps * x)) (data (eye m))) =
        map Finite (map (\<lambda>q. r ! q + eps * (if q div m = q mod m then 1 else 0)) [0..<m * m])"
    using assms(3) by (intro nth_equalityI) (simp_all add: eye_def)
  then show ?thesis using assms(1,2) by (simp add: add_ridge_def np_add_def eye_def)
qed

lemma index_bound: "i < m \<Longrightarrow> j < m \<Longrightarrow> i * m + j < m * (m::nat)"
proof -
  assume a: "i < m" "j < m"
  then have "i * m + j < i * m + m" by simp
  also have "\<dots> = (Suc i) * m" by simp
  also have "\<dots> \<le> m * m" using a(1) by (metis Suc_leI mult_le_mono1)
  finally show ?thesis .
qed

lemma quad_form_ridge:
  assumes "\<And>i j. i < m \<Longrightarrow> j < m \<Longrightarrow> A ! (i * m + j) = G ! (i * m + j) / c + eps * (if i = j then 1 else 0)"
  shows "quad_form m A x = quad_form m G x / c + eps * (\<Sum>i<m. (x ! i)\<^sup>2)"
proof -
  have "quad_form m A x = (\<Sum>i<m. \<Sum>j<m. x ! i * (G ! (i * m + j) / c + eps * (if i = j then 1 else 0)) * x ! j)"
    unfolding quad_form_def using assms by (intro sum.cong refl) simp
  also have "\<dots> = (\<Sum>i<m. (\<Sum>j<m. x ! i * G ! (i * m + j) * x ! j / c + (if i = j then eps * (x ! i) * (x ! j) else 0)))"
    by (intro sum.cong refl) (simp add: algebra_simps)
  also have "\<dots> = (\<Sum>i<m. (\<Sum>j<m. x ! i * G ! (i * m + j) * x ! j) / c + (\<Sum>j<m. if i = j then eps * (x ! i) * (x ! j) else 0))"
    by (simp add: sum.distrib sum_divide_distrib)
  also have "\<dots> = (\<Sum>i<m. (\<Sum>j<m. x ! i * G ! (i * m + j) * x ! j) / c + eps * (x ! i)\<^sup>2)"
    by (intro sum.cong refl) (simp add: power2_eq_square)
  also have "\<dots> = quad_form m G x / c + eps * (\<Sum>i<m. (x ! i)\<^sup>2)"
    by (simp add: quad_form_def sum.distrib sum_divide_distrib sum_distrib_left)
  finally show ?thesis .
qed

lemma sum_squares_pos:
  fixes x :: "real list"
  assumes "length x = m" "x \<noteq> replicate m 0"
  shows "0 < (\<Sum>i<m. (x ! i)\<^sup>2)"
proof -
  obtain i where i: "i < m" "x ! i \<noteq> 0"
    using assms by (metis length_replicate nth_equalityI nth_replicate)
  have "0 < (x ! i)\<^sup>2" using i(2) by simp
  also have "\<dots> \<le> (\<Sum>i<m. (x ! i)\<^sup>2)"
    using i(1) by (intro member_le_sum) simp_all
  finally show ?thesis .
qed

text \<open>
  C7. Let scikit-fda return a basis, a data matrix of shape \<open>(m, n, 1)\<close> and a penalty
  (Gram) matrix \<open>G\<close> with \<open>m = n_knots + degree - 1\<close>, where \<open>G\<close> is an \<open>m \<times> m\<close>
  matrix that is symmetric and positive semi-definite and has a positive entry, as the
  Gram matrix of derivatives that are not all zero is. Then, for every \<open>epsilon > 0\<close>
  (the default is 1e-6), \<^verbatim>\<open>init_basis_and_penalty\<close> returns. The matrix \<open>R\<close> that
  \<^verbatim>\<open>p / np.max(p)\<close> computes on the way has finite entries \<open>r\<close>, and the greatest of them
  is 1. The penalty matrix \<open>P\<close> that is returned is \<open>R\<close> plus \<open>epsilon\<close> times the
  identity; it is square of size \<open>m\<close>, its entries \<open>p\<close> are finite and symmetric, and it
  is positive definite: \<open>x\<^sup>T P x > 0\<close> for every \<open>x\<close> other than zero.
\<close>

theorem penalty_matrix_properties:
  assumes deg: "0 \<le> deg" and grid: "0 \<le> n_grid"
    and bas: "BSplineBasis L (deg + 1) ks = Inr b"
    and dm: "to_grid_data_matrix L b (linspace 0 1 (nat n_grid)) = Inr D"
    and dsh: "shape D = [m, nat n_grid, 1]"
    and gram: "penalty_matrix_of L dmo b = Inr G"
    and gsh: "shape G = [m, m]" and glen: "length (data G) = m * m"
    and msize: "int m = int (length ks) + deg - 1"
    and sym: "\<forall>i<m. \<forall>j<m. data G ! (i * m + j) = data G ! (j * m + i)"
    and psd: "\<forall>x. length x = m \<longrightarrow> 0 \<le> quad_form m (data G) x"
    and pos: "\<exists>g\<in>set (data G). 0 < g"
    and eps: "0 < eps"
  shows "\<exists>B P R r p. init_basis_and_penalty L ks deg n_grid dmo eps = Inr (B, P)
           \<and> rescale_by_max G = Inr R \<and> data R = map Finite r \<and> Max (set r) = 1
           \<and> add_ridge R eps = Inr P
           \<and> shape P = [m, m] \<and> data P = map Finite p \<and> length p = m * m
           \<and> (\<forall>i<m. \<forall>j<m. p ! (i * m + j) = p ! (j * m + i))
           \<and> (\<forall>x. length x = m \<longrightarrow> x \<noteq> replicate m 0 \<longrightarrow> 0 < quad_form m p x)"
proof -
  define top where "top = Max (set (data G))"
  define r where "r = map (\<lambda>x. x / top) (data G)"
  define R where "R = \<lparr>shape = shape G, data = map Finite r\<rparr>"
  define p where "p = map (\<lambda>q. r ! q + eps * (if q div m = q mod m then 1 else 0)) [0..<m * m]"
  define P where "P = \<lparr>shape = [m, m], data = map Finite p\<rparr>"
  have top: "0 < top" and resc: "rescale_by_max G = Inr R" and one: "Max (set r) = 1"
    using rescale_result [OF pos] by (simp_all add: top_def R_def r_def)
  have ridge: "add_ridge R eps = Inr P"
    unfolding P_def p_def by (rule ridge_entries) (simp_all add: R_def r_def gsh glen)
  have entry: "p ! (i * m + j) = data G ! (i * m + j) / top + eps * (if i = j then 1 else 0)"
    if "i < m" "j < m" for i j
  proof -
    have b: "i * m + j < m * m" using that by (rule index_bound)
    then show ?thesis using that by (simp add: p_def r_def glen)
  qed
  have symP: "\<forall>i<m. \<forall>j<m. p ! (i * m + j) = p ! (j * m + i)"
    using sym by (auto simp: entry)
  have pd: "0 < quad_form m p x" if "length x = m" "x \<noteq> replicate m 0" for x
  proof -
    have "quad_form m p x = quad_form m (data G) x / top + eps * (\<Sum>i<m. (x ! i)\<^sup>2)"
      by (rule quad_form_ridge) (rule entry)
    moreover have "0 \<le> quad_form m (data G) x / top" using psd that(1) top by simp
    moreover have "0 < eps * (\<Sum>i<m. (x ! i)\<^sup>2)" using eps sum_squares_pos [OF that] by simp
    ultimately show ?thesis by linarith
  qed
  have "length (norm_factor ks deg) = m"
    using length_norm_factor [OF deg, of ks] msize by linarith
  then obtain B where B: "divide_by_vector (ndarray_T (squeeze D)) (norm_factor ks deg) = Inr B"
    using divide_succeeds [OF dsh] by blast
  have built: "init_basis_and_penalty L ks deg n_grid dmo eps = Inr (B, P)"
    using deg grid
    by (simp add: init_basis_and_penalty_def Let_def bas np_linspace_def dm B gram resc ridge)
  show ?thesis
  proof (intro exI conjI)
    show "init_basis_and_penalty L ks deg n_grid dmo eps = Inr (B, P)" by (rule built)
    show "rescale_by_max G = Inr R" by (rule resc)
    show "data R = map Finite r" by (simp add: R_def)
    show "Max (set r) = 1" by (rule one)
    show "add_ridge R eps = Inr P" by (rule ridge)
    show "shape P = [m, m]" by (simp add: P_def)
    show "data P = map Finite p" by (simp add: P_def)
    show "length p = m * m" by (simp add: p_def)
    show "\<forall>i<m. \<forall>j<m. p ! (i * m + j) = p ! (j * m + i)" by (rule symP)
    show "\<forall>x. length x = m \<longrightarrow> x \<noteq> replicate m 0 \<longrightarrow> 0 < quad_form m p x"
      using pd by blast
  qed
qed

lemma norm_factor_hat: "norm_factor [0, 1] 1 = [Finite (1 / 2), Finite (1 / 2)]"
  by (simp add: norm_factor_def Let_def slice_to_def)

lemma divide_hat:
  "divide_by_vector \<lparr>shape = [2, 2], data = [Finite 1, Finite 0, Finite 0, Finite 1]\<rparr>
     [Finite (1 / 2), Finite (1 / 2)] =
   Inr \<lparr>shape = [2, 2], data = [Finite 2, Finite 0, Finite 0, Finite 2]\<rparr>"
  by (simp add: divide_by_vector_def Let_def enumerate_eq_zip upt_rec mod_Suc)

lemma ridge_hat:
  "add_ridge \<lparr>shape = [2, 2], data = [Finite a, Finite b, Finite c, Finite d]\<rparr> eps =
   Inr \<lparr>shape = [2, 2], data = [Finite (a + eps), Finite b, Finite c, Finite (d + eps)]\<rparr>"
  by (simp add: add_ridge_def eye_def np_add_def upt_rec)

lemma rescale_hat:
  "rescale_by_max \<lparr>shape = [2, 2], data = [1, - 1, - 1, 1]\<rparr> =
   Inr \<lparr>shape = [2, 2], data = [Finite 1, Finite (- 1), Finite (- 1), Finite 1]\<rparr>"
  by (simp add: rescale_by_max_def np_max_def)

lemma rescale_hat_gram:
  "rescale_by_max \<lparr>shape = [2, 2], data = [1 / 3, 1 / 6, 1 / 6, 1 / 3]\<rparr> =
   Inr \<lparr>shape = [2, 2], data = [Finite 1, Finite (1 / 2), Finite (1 / 2), Finite 1]\<rparr>"
  by (simp add: rescale_by_max_def np_max_def)

lemma basis_hat:
  "ndarray_T (squeeze \<lparr>shape = [2, Suc (Suc 0), Suc 0],
                        data = [Finite 1, Finite 0, Finite 0, Finite 1]\<rparr>) =
   \<lparr>shape = [2, 2], data = [Finite 1, Finite 0, Finite 0, Finite 1]\<rparr>"
  by (simp add: ndarray_T_def squeeze_def numeral_2_eq_2 Let_def upt_rec)

lemma linspace_hat: "linspace 0 1 2 = [0, 1]"
  by (simp add: linspace_def)

text \<open>The example model is what \<^verbatim>\<open>init_basis_and_penalty\<close> builds with the
  first-derivative penalty.\<close>

lemma example_model_built:
  "init_basis_and_penalty hat_libs [0, 1] 1 2 1 (1 / 10 ^ 6) =
     Inr (basis example_model, penalty_matrix example_model)"
  by (simp add: init_basis_and_penalty_def hat_libs_def np_linspace_def linspace_hat basis_hat
      norm_factor_hat divide_hat rescale_hat ridge_hat example_model_def)

text \<open>With the penalty on the functions themselves (order 0), whose Gram matrix has the
  maximum 1/3, the rescaling changes every entry.\<close>

lemma hat_penalty_built:
  "init_basis_and_penalty hat_libs [0, 1] 1 2 0 (1 / 10 ^ 6) =
     Inr (basis example_model,
          \<lparr>shape = [2, 2],
           data = map Finite [1 + 1 / 10 ^ 6, 1 / 2, 1 / 2, 1 + 1 / 10 ^ 6]\<rparr>)"
  by (simp add: init_basis_and_penalty_def hat_libs_def np_linspace_def linspace_hat basis_hat
      norm_factor_hat divide_hat rescale_hat_gram ridge_hat example_model_def)

lemma map_Finite_inj: "map Finite xs = map Finite ys \<longleftrightarrow> xs = ys"
  by (rule inj_map_eq_map) (simp add: inj_def)

lemma hat_gram_psd:
  "\<forall>x. length x = 2 \<longrightarrow> 0 \<le> quad_form 2 [1 / 3, 1 / 6, 1 / 6, 1 / 3] x"
proof (intro allI impI)
  fix x :: "real list"
  have eq: "quad_form 2 [1 / 3, 1 / 6, 1 / 6, 1 / 3] x =
        ((x ! 0 + x ! 1)\<^sup>2 + (x ! 0)\<^sup>2 + (x ! 1)\<^sup>2) / 6"
    by (simp add: quad_form_def lessThan_Suc numeral_2_eq_2 power2_eq_square algebra_simps)
  have "0 \<le> ((x ! 0 + x ! 1)\<^sup>2 + (x ! 0)\<^sup>2 + (x ! 1)\<^sup>2) / 6" by simp
  then show "0 \<le> quad_form 2 [1 / 3, 1 / 6, 1 / 6, 1 / 3] x" by (simp only: eq)
qed

theorem penalty_matrix_properties_witness:
  "init_basis_and_penalty hat_libs [0, 1] 1 2 0 (1 / 10 ^ 6) =
     Inr (basis example_model,
          \<lparr>shape = [2, 2],
           data = map Finite [1 + 1 / 10 ^ 6, 1 / 2, 1 / 2, 1 + 1 / 10 ^ 6]\<rparr>)
   \<and> rescale_by_max \<lparr>shape = [2, 2], data = [1 / 3, 1 / 6, 1 / 6, 1 / 3]\<rparr> =
       Inr \<lparr>shape = [2, 2], data = map Finite [1, 1 / 2, 1 / 2, 1]\<rparr>
   \<and> Max (set [1, 1 / 2, 1 / 2, 1 :: real]) = 1
   \<and> [1 + 1 / 10 ^ 6, 1 / 2, 1 / 2, 1 + 1 / 10 ^ 6 :: real] ! 1 =
       [1 + 1 / 10 ^ 6, 1 / 2, 1 / 2, 1 + 1 / 10 ^ 6] ! 2
   \<and> 0 < quad_form 2 [1 + 1 / 10 ^ 6, 1 / 2, 1 / 2, 1 + 1 / 10 ^ 6] [1, - 1]"
proof -
  let ?G = "\<lparr>shape = [2, 2], data = [1 / 3, 1 / 6, 1 / 6, 1 / 3 :: real]\<rparr>"
  have "\<exists>B P R r p. init_basis_and_penalty hat_libs [0, 1] 1 2 0 (1 / 10 ^ 6) = Inr (B, P)
           \<and> rescale_by_max ?G = Inr R \<and> data R = map Finite r \<and> Max (set r) = 1
           \<and> add_ridge R (1 / 10 ^ 6) = Inr P
           \<and> shape P = [2, 2] \<and> data P = map Finite p \<and> length p = 2 * 2
           \<and> (\<forall>i<2. \<forall>j<2. p ! (i * 2 + j) = p ! (j * 2 + i))
           \<and> (\<forall>x. length x = 2 \<longrightarrow> x \<noteq> replicate 2 0 \<longrightarrow> 0 < quad_form 2 p x)"
  proof (rule penalty_matrix_properties [where b = "()" and m = 2 and
        D = "\<lparr>shape = [2, 2, 1], data = [Finite 1, Finite 0, Finite 0, Finite 1]\<rparr>"])
    show "\<forall>x. length x = 2 \<longrightarrow> 0 \<le> quad_form 2 (data ?G) x"
      using hat_gram_psd by simp
    show "\<forall>i<2. \<forall>j<2. data ?G ! (i * 2 + j) = data ?G ! (j * 2 + i)"
      by (auto simp: less_2_cases_iff)
    show "to_grid_data_matrix hat_libs () (linspace 0 1 (nat 2)) =
            Inr \<lparr>shape = [2, 2, 1], data = [Finite 1, Finite 0, Finite 0, Finite 1]\<rparr>"
      by (simp add: hat_libs_def linspace_def)
  qed (simp_all add: hat_libs_def)
  then obtain B P R r p where
        built: "init_basis_and_penalty hat_libs [0, 1] 1 2 0 (1 / 10 ^ 6) = Inr (B, P)"
      and resc: "rescale_by_max ?G = Inr R" and r: "data R = map Finite r" "Max (set r) = 1"
      and p: "data P = map Finite p"
      and s: "\<forall>i<2. \<forall>j<2. p ! (i * 2 + j) = p ! (j * 2 + i)"
      and pd: "\<forall>x. length x = 2 \<longrightarrow> x \<noteq> replicate 2 0 \<longrightarrow> 0 < quad_form 2 p x"
    by blast
  have "map Finite p = map Finite [1 + 1 / 10 ^ 6, 1 / 2, 1 / 2, 1 + 1 / 10 ^ 6]"
    using built p hat_penalty_built by auto
  then have pval: "p = [1 + 1 / 10 ^ 6, 1 / 2, 1 / 2, 1 + 1 / 10 ^ 6]"
    by (simp only: map_Finite_inj)
  have "map Finite r = map Finite [1, 1 / 2, 1 / 2, 1]"
    using resc r(1) rescale_hat_gram by auto
  then have rval: "r = [1, 1 / 2, 1 / 2, 1]"
    by (simp only: map_Finite_inj)
  have "p ! (0 * 2 + 1) = p ! (1 * 2 + 0)"
    using s by (meson pos2 one_less_numeral_iff semiring_norm(76))
  then have sym: "p ! 1 = p ! 2" by simp
  have "length [1, - 1 :: real] = 2" "[1, - 1 :: real] \<noteq> replicate 2 0"
    by (simp_all add: numeral_2_eq_2)
  then have pos: "0 < quad_form 2 p [1, - 1]" using pd by blast
  show ?thesis
    using hat_penalty_built rescale_hat_gram r(2) sym pos unfolding pval rval
    by simp
qed

subsection \<open>The weight initialiser\<close>

text \<open>
  Without an initial vector, \<^verbatim>\<open>init_weights\<close> starts from the zero vector of length
  \<open>n_knots + degree - 1\<close>, and with one it runs the step \<open>num_steps\<close> times from that
  vector and the optimiser state that optax makes for it; there is no convergence test.
\<close>

lemma init_weights_default_start:
  assumes "0 \<le> n_basis_of m"
  shows "init_weights L log_pdgrm m None num_steps =
         init_weights L log_pdgrm m
           (Some (replicate (nat (n_knots_of m + degree m - 1)) 0)) num_steps"
  using assms by (simp add: init_weights_def jnp_zeros_def n_basis_of_def)

lemma init_weights_fixed_count:
  "init_weights L log_pdgrm m (Some w) num_steps =
     and_then (fori_steps (nat num_steps) 0 (step L log_pdgrm m) (w, adam_init L (1 / 100) w))
       (\<lambda>final_state. Inr (fst final_state))"
  by (simp add: init_weights_def fori_loop_def)

subsection \<open>The high-pass filter\<close>

lemma mask_self: "map fst (filter snd (zip xs (map P xs))) = filter P xs"
  by (induction xs) auto

lemma mask_other:
  "length xs = length ys \<Longrightarrow>
     map fst (filter snd (zip ys (map P xs))) = map snd (filter (\<lambda>(x, y). P x) (zip xs ys))"
  by (induction xs ys rule: list_induct2) auto

lemma mask_pairs: "map fst (filter (\<lambda>(x, y). P x) (zip xs ys)) = filter P (take (length ys) xs)"
proof (induction xs arbitrary: ys)
  case Nil
  then show ?case by simp
next
  case (Cons x xs)
  then show ?case by (cases ys) auto
qed

text \<open>
  C9. For a periodogram \<open>p\<close> of frequency/power pairs (as many powers as frequencies)
  and a threshold \<open>f\<close>, \<^verbatim>\<open>highpass\<close> returns a periodogram that holds exactly the pairs
  of \<open>p\<close> whose frequency is above \<open>f\<close>, in their order and marked as filtered, and
  \<open>p\<close> is the same after the call as before.
\<close>

theorem highpass_frame:
  assumes "length (freqs p) = length (power' p)"
  shows "highpass p f =
           Inr (p, \<lparr>freqs = map fst (filter (\<lambda>(x, y). f < x) (zip (freqs p) (power' p))),
                    power' = map snd (filter (\<lambda>(x, y). f < x) (zip (freqs p) (power' p))),
                    filtered = True\<rparr>)"
  using assms
  by (simp add: highpass_def mask_index_def Let_def mask_self mask_other mask_pairs)

theorem highpass_frame_witness:
  "length (freqs example_periodogram) = length (power' example_periodogram) \<and>
   highpass example_periodogram 5 =
     Inr (example_periodogram, \<lparr>freqs = [10, 100], power' = [1, 1], filtered = True\<rparr>)"
  using highpass_frame [of example_periodogram 5]
  by (simp add: example_periodogram_def)

subsection \<open>Validation of the configuration\<close>

lemma post_init_valid:
  "valid_configuration (degree m) (diffMatrixOrder m) (n_knots_of m) \<Longrightarrow> post_init m = Inr ()"
  by (auto simp: valid_configuration_def post_init_def)

lemma post_init_invalid:
  "\<not> valid_configuration (degree m) (diffMatrixOrder m) (n_knots_of m) \<Longrightarrow>
     \<exists>msg. post_init m = Inl (ValueError msg)"
  by (auto simp: valid_configuration_def post_init_def)

lemma bind_keywords_swapped:
  "bind_keywords [(''periodogram'', Some a), (''n_knots'', Some b),
                  (''frac_uniform'', Some c), (''frac_log'', fl)] kws = Inl TypeError \<or>
   (\<exists>fl'. bind_keywords [(''periodogram'', Some a), (''n_knots'', Some b),
                  (''frac_uniform'', Some c), (''frac_log'', fl)] kws =
      Inr [(''periodogram'', Some a), (''n_knots'', Some b),
           (''frac_uniform'', Some c), (''frac_log'', fl')])"
proof (induction kws arbitrary: fl)
  case Nil
  then show ?case by simp
next
  case (Cons kv kws)
  obtain k v where kv: "kv = (k, v)" by (cases kv)
  show ?case
  proof (cases "k = ''frac_log'' \<and> fl = None")
    case True
    then show ?thesis using Cons.IH [of "Some v"] by (simp add: kv)
  next
    case False
    then show ?thesis by (cases fl) (auto simp: kv)
  qed
qed

lemma call_init_knots_swapped:
  "call_init_knots [PyInt n, PyPeriodogram p, c] kws = Inl TypeError"
  using bind_keywords_swapped [of "PyInt n" "PyPeriodogram p" c None kws]
  by (auto simp: call_init_knots_def bind_arguments_def)

text \<open>
  The constructor of \<^verbatim>\<open>LogPSplines\<close> stores its arguments and checks them in
  \<^verbatim>\<open>__post_init__\<close>: it accepts every valid configuration and raises \<^verbatim>\<open>ValueError\<close>
  for every invalid one (degree outside 0..5, differential order outside 0..2, degree
  below the differential order, fewer knots than the degree).
\<close>

lemma new_LogPSplines_validates:
  "(valid_configuration deg dmo (int (length ks)) \<longrightarrow>
      new_LogPSplines deg dmo len b pen ks ws pm =
        Inr \<lparr>degree = deg, diffMatrixOrder = dmo, n' = len, basis = b, penalty_matrix = pen,
             knots = ks, weights = ws, parametric_model = pm,
             log_parametric_model_cache = None\<rparr>) \<and>
   (\<not> valid_configuration deg dmo (int (length ks)) \<longrightarrow>
      (\<exists>msg. new_LogPSplines deg dmo len b pen ks ws pm = Inl (ValueError msg)))"
proof -
  let ?self = "\<lparr>degree = deg, diffMatrixOrder = dmo, n' = len, basis = b, penalty_matrix = pen,
             knots = ks, weights = ws, parametric_model = pm,
             log_parametric_model_cache = None\<rparr>"
  have accept: "new_LogPSplines deg dmo len b pen ks ws pm = Inr ?self"
    if "valid_configuration deg dmo (int (length ks))"
  proof -
    have "post_init ?self = Inr ()"
      using that post_init_valid [of ?self] by (simp add: n_knots_of_def)
    then show ?thesis by (simp add: new_LogPSplines_def)
  qed
  have refuse: "\<exists>msg. new_LogPSplines deg dmo len b pen ks ws pm = Inl (ValueError msg)"
    if invalid: "\<not> valid_configuration deg dmo (int (length ks))"
  proof -
    obtain msg where "post_init ?self = Inl (ValueError msg)"
      using invalid post_init_invalid [of ?self] by (auto simp: n_knots_of_def)
    then show ?thesis by (simp add: new_LogPSplines_def)
  qed
  from accept refuse show ?thesis by blast
qed

text \<open>
  C2. \<^verbatim>\<open>from_periodogram\<close> reaches the constructor, and with it the check of the
  configuration, only through the call of \<^verbatim>\<open>init_knots\<close>, whose arguments it passes in
  the wrong order. For the three invalid configurations that the specification names
  (degree 1 with differential order 2, degree 6, and one knot) the call therefore ends
  in the knot-selection stage with \<^verbatim>\<open>TypeError\<close>: the \<^verbatim>\<open>ValueError\<close> of
  \<^verbatim>\<open>__post_init__\<close> never surfaces.
\<close>

theorem from_periodogram_invalid_configuration:
  "\<not> valid_configuration 1 2 10 \<and>
   from_periodogram hat_libs example_periodogram 10 1 2 None [] =
     ([KnotSelection], Inl TypeError) \<and>
   \<not> valid_configuration 6 2 10 \<and>
   from_periodogram hat_libs example_periodogram 10 6 2 None [] =
     ([KnotSelection], Inl TypeError) \<and>
   \<not> valid_configuration 3 2 1 \<and>
   from_periodogram hat_libs example_periodogram 1 3 2 None [] =
     ([KnotSelection], Inl TypeError)"
  by (simp add: valid_configuration_def from_periodogram_def call_init_knots_swapped)

subsection \<open>The cached property\<close>

text \<open>
  C10. On a model with no parametric model and no cached value, the first read of
  \<^verbatim>\<open>log_parametric_model\<close> changes the model: it stores the all-ones vector of length
  \<open>n\<close> as the parametric model and the zero vector of length \<open>n\<close> as the cache, and
  returns that zero vector. The model after the read differs from the model before it.
  Every later read returns the cached vector and changes nothing.
\<close>

theorem log_parametric_model_first_access:
  assumes "parametric_model m = None" "log_parametric_model_cache m = None" "0 \<le> n' m"
  shows "log_parametric_model m =
           Inr (m\<lparr>parametric_model := Some (replicate (nat (n' m)) 1),
                  log_parametric_model_cache := Some (replicate (nat (n' m)) 0)\<rparr>,
                replicate (nat (n' m)) 0) \<and>
         m\<lparr>parametric_model := Some (replicate (nat (n' m)) 1),
           log_parametric_model_cache := Some (replicate (nat (n' m)) 0)\<rparr> \<noteq> m \<and>
         log_parametric_model
           (m\<lparr>parametric_model := Some (replicate (nat (n' m)) 1),
              log_parametric_model_cache := Some (replicate (nat (n' m)) 0)\<rparr>) =
           Inr (m\<lparr>parametric_model := Some (replicate (nat (n' m)) 1),
                  log_parametric_model_cache := Some (replicate (nat (n' m)) 0)\<rparr>,
                replicate (nat (n' m)) 0)"
proof -
  let ?m1 = "m\<lparr>parametric_model := Some (replicate (nat (n' m)) 1),
                log_parametric_model_cache := Some (replicate (nat (n' m)) 0)\<rparr>"
  have first: "log_parametric_model m = Inr (?m1, replicate (nat (n' m)) 0)"
    using assms by (simp add: log_parametric_model_def jnp_ones_def Let_def)
  have "parametric_model ?m1 \<noteq> parametric_model m"
    using assms(1) by simp
  then have changed: "?m1 \<noteq> m" by metis
  have again: "log_parametric_model ?m1 = Inr (?m1, replicate (nat (n' m)) 0)"
    by (simp add: log_parametric_model_def)
  from first changed again show ?thesis by simp
qed

theorem log_parametric_model_first_access_witness:
  "parametric_model example_model = None \<and>
   log_parametric_model_cache example_model = None \<and>
   0 \<le> n' example_model \<and>
   log_parametric_model example_model =
     Inr (example_model\<lparr>parametric_model := Some [1, 1],
                        log_parametric_model_cache := Some [0, 0]\<rparr>, [0, 0])"
  using log_parametric_model_first_access [of example_model]
  by (simp add: example_model_def numeral_2_eq_2)

subsection \<open>The call of init_knots in from_periodogram\<close>

text \<open>
  C1. \<^verbatim>\<open>from_periodogram\<close> does not run the pipeline. It calls
  \<^verbatim>\<open>init_knots(n_knots, periodogram, parametric_model, **knot_kwargs)\<close>, while
  \<^verbatim>\<open>init_knots\<close> declares \<open>(periodogram, n_knots, frac_uniform, frac_log)\<close>: the
  parameter \<open>n_knots\<close> is bound to the periodogram, and the first statement,
  \<^verbatim>\<open>if n_knots < 2\<close>, raises \<^verbatim>\<open>TypeError\<close>. So for every periodogram, every
  configuration and every \<open>knot_kwargs\<close>, the call ends with \<^verbatim>\<open>TypeError\<close> in the
  knot-selection stage: no basis matrix is built and no weights are fitted.
\<close>

theorem from_periodogram_raises_TypeError:
  "from_periodogram L periodogram n_knots deg dmo pm knot_kwargs =
     ([KnotSelection], Inl TypeError)"
  by (simp add: from_periodogram_def call_init_knots_swapped)

end
